theory Spec2Isabelle
  imports Main "HOL-Library.AList" "HOL-Library.Multiset"
begin

section \<open>Strings and numbers of the source language\<close>

text \<open>
  A JavaScript string is a sequence of UTF-16 code units. The cleaners below look at
  characters outside ASCII (dashes, Unicode white space), so a string is modelled as the
  list of its code units, and \<open>js\<close> embeds an ASCII literal.
\<close>

type_synonym jsstring = "nat list"

definition js :: "string \<Rightarrow> jsstring" where
  "js s = map of_char s"

text \<open>
  A JavaScript number is a double. The numbers of the document are part numbers and
  question numbers, and the model holds the integers among the doubles, as \<open>int\<close>. Every
  integer of magnitude up to \<open>2 ^ 53\<close> is a double; the sum, the difference and the product
  of two doubles is the exact result rounded to the nearest double, the even significand
  winning a tie (\<open>roundDouble\<close>: \<open>significandShift n\<close> is the number of low bits that
  do not fit into the 53 bits of the significand). Numbers with a fraction and results of
  magnitude \<open>2 ^ 1024\<close> and more (\<open>Infinity\<close>) are outside the model. Array indices are
  below \<open>2 ^ 32\<close>, where the arithmetic is exact; they are computed in \<open>nat\<close> and \<open>int\<close>.
\<close>

function significandShift :: "nat \<Rightarrow> nat" where
  "significandShift n = (if n < 2 ^ 53 then 0 else Suc (significandShift (n div 2)))"
  by pat_completeness auto
termination
  by (relation "measure (\<lambda>n. n)") auto

declare significandShift.simps [simp del]

definition roundNat :: "nat \<Rightarrow> nat" where
  "roundNat n =
     (let e = significandShift n;
          q = n div 2 ^ e;
          r = n mod 2 ^ e
      in if 2 ^ e < 2 * r \<or> (2 * r = 2 ^ e \<and> odd q) then (q + 1) * 2 ^ e else q * 2 ^ e)"

definition roundDouble :: "int \<Rightarrow> int" where
  "roundDouble x = (if x < 0 then - int (roundNat (nat (- x))) else int (roundNat (nat x)))"

definition jsAdd :: "int \<Rightarrow> int \<Rightarrow> int" where
  "jsAdd a b = roundDouble (a + b)"

definition jsSub :: "int \<Rightarrow> int \<Rightarrow> int" where
  "jsSub a b = roundDouble (a - b)"

definition jsMul :: "int \<Rightarrow> int \<Rightarrow> int" where
  "jsMul a b = roundDouble (a * b)"

text \<open>
  Template literals render an integer of magnitude below \<open>10 ^ 21\<close> as its decimal
  numeral (\<open>showInt\<close>; from \<open>10 ^ 21\<close> on JavaScript prints an exponent, which is outside
  the model).
\<close>

fun showNat :: "nat \<Rightarrow> jsstring" where
  "showNat n = (if n < 10 then [48 + n] else showNat (n div 10) @ [48 + n mod 10])"

declare showNat.simps [simp del]

definition showInt :: "int \<Rightarrow> jsstring" where
  "showInt i = (if i < 0 then 45 # showNat (nat (- i)) else showNat (nat i))"

text \<open>A template literal prints an absent value as the word \<open>undefined\<close>.\<close>

definition tmplStr :: "jsstring option \<Rightarrow> jsstring" where
  "tmplStr v = (case v of None \<Rightarrow> js ''undefined'' | Some s \<Rightarrow> s)"

definition tmplInt :: "int option \<Rightarrow> jsstring" where
  "tmplInt v = (case v of None \<Rightarrow> js ''undefined'' | Some n \<Rightarrow> showInt n)"

text \<open>\<open>String.prototype.includes\<close> (here \<open>includesStr\<close>): the pattern occurs somewhere
  in the string.\<close>

fun startsWith :: "jsstring \<Rightarrow> jsstring \<Rightarrow> bool" where
  "startsWith s [] = True"
| "startsWith [] (p # ps) = False"
| "startsWith (c # cs) (p # ps) = (c = p \<and> startsWith cs ps)"

fun includesStr :: "jsstring \<Rightarrow> jsstring \<Rightarrow> bool" where
  "includesStr [] pat = (pat = [])"
| "includesStr (c # cs) pat = (startsWith (c # cs) pat \<or> includesStr cs pat)"

text \<open>
  \<open>String.prototype.toLowerCase\<close>. The results are only searched for ASCII words, so the
  model lowers the ASCII capitals and the two capitals outside ASCII whose lower case
  contains an ASCII letter (U+0130 and the Kelvin sign U+212A); every other letter
  outside ASCII lowers to letters outside ASCII and is left as it is.
\<close>

definition lowerUnit :: "nat \<Rightarrow> jsstring" where
  "lowerUnit c =
     (if 65 \<le> c \<and> c \<le> 90 then [c + 32]
      else if c = 304 then [105, 775]
      else if c = 8490 then [107]
      else [c])"

definition toLowerCase :: "jsstring \<Rightarrow> jsstring" where
  "toLowerCase s = concat (map lowerUnit s)"

text \<open>Truthiness of the values that the pipeline tests with \<open>!x\<close> or \<open>x || y\<close>:
  an absent field (\<open>undefined\<close>), the empty string and the number 0 are falsy; arrays and
  objects are truthy whenever they are present.\<close>

definition truthyStr :: "jsstring option \<Rightarrow> bool" where
  "truthyStr v = (case v of None \<Rightarrow> False | Some s \<Rightarrow> s \<noteq> [])"

definition truthyNum :: "int option \<Rightarrow> bool" where
  "truthyNum v = (case v of None \<Rightarrow> False | Some n \<Rightarrow> n \<noteq> 0)"

text \<open>\<open>a || b\<close> on strings.\<close>

definition orStr :: "jsstring option \<Rightarrow> jsstring option \<Rightarrow> jsstring option" where
  "orStr a b = (if truthyStr a then a else b)"

section \<open>The exam document\<close>

text \<open>
  The document is the object that \<open>JSON.parse\<close> returns for the completion. It is read
  through the schema: every field may be absent (\<open>None\<close>, the \<open>undefined\<close> of a missing
  property), and a field that is present has the type the schema gives it (a part is an
  object, its number an integer, its questions an array of objects). Field \<open>text\<close> of a
  question is called \<open>qtext\<close> here, the question's own \<open>instructions\<close> field
  \<open>qinstructions\<close> and the document's \<open>section\<close> field \<open>sectionName\<close>; the remaining
  fields keep their names. Stage 1 copies a part with all its fields; it is defined on
  parts with any further fields, which travel in the extension slot of the record.
\<close>

record answer_obj =
  correct :: jsstring
  accepted :: "jsstring list"

record question =
  questionId :: "jsstring option"
  number :: "int option"
  type :: "jsstring option"
  inputType :: "jsstring option"
  answerConstraints :: "jsstring option"
  isInteractive :: "bool option"
  answer :: "answer_obj option"
  qtext :: "jsstring option"
  questionText :: "jsstring option"
  qinstructions :: "jsstring option"
  textList :: "jsstring list option"
  options :: "jsstring list option"
  draggableVariants :: "jsstring list option"
  base64 :: "jsstring option"
  url :: "jsstring option"
  headline :: "jsstring option"
  numberRange :: "jsstring option"

record exam_part =
  part :: "int option"
  instructions :: "jsstring option"
  questionsRange :: "jsstring option"
  questions :: "question list option"

record exam_document =
  test :: "jsstring option"
  sectionName :: "jsstring option"
  parts :: "exam_part list option"

text \<open>An entry of \<open>uploadedImages\<close>, as \<open>extractAndUploadImages\<close> builds it.\<close>

record uploaded_image =
  imageUrl :: jsstring
  filename :: jsstring
  isMap :: bool

text \<open>The one run-time error of the pipeline: a method call or property read on
  \<open>undefined\<close>.\<close>

datatype error = TypeError

section \<open>Stage 1: mergeDuplicateParts\<close>

text \<open>
  \<open>partMap\<close> is a JavaScript \<open>Map\<close>: it keeps its keys in insertion order, \<open>set\<close> on a key
  that is present replaces the value in place, and \<open>undefined\<close> is a key like any other.
  It is an association list; \<open>AList.update\<close> is \<open>Map.prototype.set\<close>.
\<close>

definition questionsOrEmpty :: "'a exam_part_scheme \<Rightarrow> question list" where
  "questionsOrEmpty p = (case questions p of None \<Rightarrow> [] | Some qs \<Rightarrow> qs)"

definition mergeStep ::
  "(int option \<times> 'a exam_part_scheme) list \<Rightarrow> 'a exam_part_scheme
     \<Rightarrow> (int option \<times> 'a exam_part_scheme) list" where
  "mergeStep partMap p =
     (case map_of partMap (part p) of
        Some existingPart \<Rightarrow>
          AList.update (part p)
            (existingPart\<lparr>questions :=
               Some (questionsOrEmpty existingPart @ questionsOrEmpty p)\<rparr>) partMap
      | None \<Rightarrow>
          AList.update (part p) (p\<lparr>questions := Some (questionsOrEmpty p)\<rparr>) partMap)"

text \<open>
  \<open>Array.prototype.sort\<close> with the comparator \<open>(a, b) => a.part - b.part\<close>. The sort is
  stable, and a comparator result of \<open>NaN\<close> (a part number is missing) counts as 0. When
  every part has a number the comparator is a consistent order and the result is the one
  the language fixes. Otherwise the language leaves the order to the engine; the model
  follows a stable insertion sort, which is not the order of every engine on every such
  sequence. On the sequence of a part numbered 2, a part without a number and a part
  numbered 1 it is the order of V8, which compares neighbours, finds one ascending run
  and leaves the array as it is.
\<close>

definition compareParts :: "'a exam_part_scheme \<Rightarrow> 'a exam_part_scheme \<Rightarrow> int" where
  "compareParts a b =
     (case (part a, part b) of (Some x, Some y) \<Rightarrow> x - y | _ \<Rightarrow> 0)"

fun insertPart :: "'a exam_part_scheme \<Rightarrow> 'a exam_part_scheme list \<Rightarrow> 'a exam_part_scheme list" where
  "insertPart x [] = [x]"
| "insertPart x (y # ys) =
     (if compareParts x y \<le> 0 then x # y # ys else y # insertPart x ys)"

definition sortParts :: "'a exam_part_scheme list \<Rightarrow> 'a exam_part_scheme list" where
  "sortParts ps = foldr insertPart ps []"

definition mergeDuplicateParts :: "'a exam_part_scheme list \<Rightarrow> 'a exam_part_scheme list" where
  "mergeDuplicateParts ps = sortParts (map snd (foldl mergeStep [] ps))"

section \<open>Stage 2: validateAndFixStructure\<close>

definition autoDetectQuestionType :: "question \<Rightarrow> jsstring" where
  "autoDetectQuestionType question =
     (let text = toLowerCase (tmplStr (orStr (orStr (qtext question) (questionText question)) (Some [])));
          instructions = toLowerCase (tmplStr (orStr (qinstructions question) (Some [])))
      in
        if includesStr text (js ''____'') \<or> includesStr text (js ''...'') then
          (if includesStr instructions (js ''map'') \<or> includesStr instructions (js ''diagram'')
              \<or> includesStr instructions (js ''label'')
           then js ''map-labelling''
           else if includesStr instructions (js ''form'') \<or> includesStr instructions (js ''notes'')
              \<or> includesStr instructions (js ''table'')
           then js ''form-fill''
           else js ''sentence-completion'')
        else if textList question \<noteq> None \<or> options question \<noteq> None then
          (if includesStr instructions (js ''choose two'') \<or> includesStr instructions (js ''choose three'')
           then js ''multi-select''
           else js ''multiple-choice'')
        else if draggableVariants question \<noteq> None \<or> includesStr instructions (js ''match'') then
          js ''matching''
        else if includesStr instructions (js ''short answer'') \<or> includesStr instructions (js ''no more than'')
        then js ''short-answer''
        else js ''form-fill'')"


definition typeMap :: "(jsstring \<times> jsstring) list" where
  "typeMap =
     [(js ''form-fill'', js ''text''),
      (js ''multiple-choice'', js ''radio''),
      (js ''multi-select'', js ''checkbox''),
      (js ''matching'', js ''drag''),
      (js ''map-labelling'', js ''text''),
      (js ''short-answer'', js ''text''),
      (js ''sentence-completion'', js ''text'')]"

definition getInputTypeForQuestionType :: "jsstring option \<Rightarrow> jsstring" where
  "getInputTypeForQuestionType t =
     (case map_of typeMap (tmplStr t) of Some v \<Rightarrow> v | None \<Rightarrow> js ''text'')"

definition constraintMap :: "(jsstring \<times> jsstring) list" where
  "constraintMap =
     [(js ''form-fill'', js ''ONE WORD AND/OR A NUMBER''),
      (js ''multiple-choice'', js ''CHOOSE THE CORRECT LETTER A, B OR C''),
      (js ''multi-select'', js ''CHOOSE TWO LETTERS A-E''),
      (js ''matching'', js ''CHOOSE FROM THE BOX A-H''),
      (js ''map-labelling'', js ''LABEL FROM MAP A-H''),
      (js ''short-answer'', js ''NO MORE THAN THREE WORDS''),
      (js ''sentence-completion'', js ''ONE WORD ONLY'')]"

definition getDefaultAnswerConstraints :: "jsstring option \<Rightarrow> jsstring" where
  "getDefaultAnswerConstraints t =
     (case map_of constraintMap (tmplStr t) of Some v \<Rightarrow> v
      | None \<Rightarrow> js ''ONE WORD AND/OR A NUMBER'')"

text \<open>The body of the inner \<open>forEach\<close>: one question, at index \<open>qIndex\<close> of a part.\<close>

definition fixQuestionId :: "jsstring option \<Rightarrow> int option \<Rightarrow> nat \<Rightarrow> question \<Rightarrow> question" where
  "fixQuestionId testv partv qIndex question =
     (if \<not> truthyStr (questionId question)
      then question\<lparr>questionId := Some (js ''listening-'' @ tmplStr testv @ js ''-'' @ tmplInt partv
                                          @ js ''-'' @ showInt (int qIndex + 1))\<rparr>
      else question)"

definition fixNumber :: "int \<Rightarrow> nat \<Rightarrow> question \<Rightarrow> question" where
  "fixNumber partv qIndex question =
     (if \<not> truthyNum (number question)
      then question\<lparr>number := Some (jsAdd (jsAdd (jsMul (jsSub partv 1) 10) (int qIndex)) 1)\<rparr>
      else question)"

definition fixType :: "question \<Rightarrow> question" where
  "fixType question =
     (if \<not> truthyStr (type question)
      then question\<lparr>type := Some (autoDetectQuestionType question)\<rparr>
      else question)"

definition fixInputType :: "question \<Rightarrow> question" where
  "fixInputType question =
     (if \<not> truthyStr (inputType question)
      then question\<lparr>inputType := Some (getInputTypeForQuestionType (type question))\<rparr>
      else question)"

definition fixAnswerConstraints :: "question \<Rightarrow> question" where
  "fixAnswerConstraints question =
     (if \<not> truthyStr (answerConstraints question)
      then question\<lparr>answerConstraints := Some (getDefaultAnswerConstraints (type question))\<rparr>
      else question)"

definition fixIsInteractive :: "question \<Rightarrow> question" where
  "fixIsInteractive question =
     (if isInteractive question = None then question\<lparr>isInteractive := Some True\<rparr>
      else question)"

definition fixAnswer :: "question \<Rightarrow> question" where
  "fixAnswer question =
     (if answer question = None
      then question\<lparr>answer := Some \<lparr>correct = [], accepted = []\<rparr>\<rparr>
      else question)"

definition fixQuestion :: "jsstring option \<Rightarrow> int \<Rightarrow> nat \<Rightarrow> question \<Rightarrow> question" where
  "fixQuestion testv partv qIndex question =
     fixAnswer (fixIsInteractive (fixAnswerConstraints (fixInputType (fixType
       (fixNumber partv qIndex (fixQuestionId testv (Some partv) qIndex question))))))"

text \<open>The body of the outer \<open>forEach\<close>: one part, at index \<open>index\<close> of the document.
  After its first line the part has a number, \<open>partNumber\<close>.\<close>

definition partNumber :: "nat \<Rightarrow> exam_part \<Rightarrow> int" where
  "partNumber index p = (case part p of None \<Rightarrow> int index + 1
                         | Some n \<Rightarrow> if n = 0 then int index + 1 else n)"

definition fixPart :: "jsstring option \<Rightarrow> nat \<Rightarrow> exam_part \<Rightarrow> exam_part" where
  "fixPart testv index p =
     (let n = partNumber index p;
          p1 = p\<lparr>part := Some n\<rparr>;
          p2 = (if \<not> truthyStr (instructions p1)
                then p1\<lparr>instructions := Some (js ''Part '' @ showInt n @ js '' instructions'')\<rparr>
                else p1);
          p3 = (if \<not> truthyStr (questionsRange p2)
                then p2\<lparr>questionsRange :=
                        Some (showInt (jsAdd (jsMul (jsSub n 1) 10) 1) @ js ''-''
                              @ showInt (jsMul n 10))\<rparr>
                else p2);
          qs = (case questions p3 of None \<Rightarrow> [] | Some qs \<Rightarrow> qs)
      in p3\<lparr>questions := Some (map (\<lambda>(qIndex, q). fixQuestion testv n qIndex q) (enumerate 0 qs))\<rparr>)"

definition validateAndFixStructure :: "exam_document \<Rightarrow> exam_document" where
  "validateAndFixStructure structure =
     (let s1 = (if \<not> truthyStr (test structure) then structure\<lparr>test := Some (js ''1'')\<rparr>
                else structure);
          s2 = (if \<not> truthyStr (sectionName s1) then s1\<lparr>sectionName := Some (js ''Listening'')\<rparr>
                else s1);
          ps = (case parts s2 of None \<Rightarrow> [] | Some ps \<Rightarrow> ps)
      in s2\<lparr>parts := Some (map (\<lambda>(index, p). fixPart (test s2) index p) (enumerate 0 ps))\<rparr>)"

section \<open>Stages 3 to 8\<close>

text \<open>
  Stages 3 to 6 start from \<open>JSON.parse(JSON.stringify(structure))\<close>, a deep copy. The
  document is plain JSON data and the model has values, not references, so the copy is
  the document itself. A \<open>forEach\<close> or \<open>for ... of\<close> over an absent array raises a
  \<open>TypeError\<close>, which no stage catches: the stage then returns \<open>Inl TypeError\<close>.
  \<open>forEachPart\<close> is the loop over parts whose body may raise, with the index of the part.
\<close>

fun sequence :: "(error + 'a) list \<Rightarrow> error + 'a list" where
  "sequence [] = Inr []"
| "sequence (x # xs) =
     (case x of Inl e \<Rightarrow> Inl e
      | Inr v \<Rightarrow> (case sequence xs of Inl e \<Rightarrow> Inl e | Inr vs \<Rightarrow> Inr (v # vs)))"

definition forEachPart ::
  "(nat \<Rightarrow> exam_part \<Rightarrow> error + exam_part) \<Rightarrow> exam_document \<Rightarrow> error + exam_document" where
  "forEachPart body structure =
     (case parts structure of
        None \<Rightarrow> Inl TypeError
      | Some ps \<Rightarrow>
          (case sequence (map (\<lambda>(partIndex, p). body partIndex p) (enumerate 0 ps)) of
             Inl e \<Rightarrow> Inl e
           | Inr ps' \<Rightarrow> Inr (structure\<lparr>parts := Some ps'\<rparr>)))"

subsection \<open>Stage 3: injectImageObjects\<close>

definition imageQuestion :: "jsstring option \<Rightarrow> int option \<Rightarrow> uploaded_image \<Rightarrow> question" where
  "imageQuestion testv partv mapImage =
     \<lparr>questionId = Some (js ''listening-'' @ tmplStr testv @ js ''-'' @ tmplInt partv @ js ''-map''),
      number = None, type = Some (js ''image''), inputType = None, answerConstraints = None,
      isInteractive = None, answer = None, qtext = None, questionText = None,
      qinstructions = None, textList = None, options = None, draggableVariants = None,
      base64 = None, url = Some (imageUrl mapImage), headline = Some (js ''Map''),
      numberRange = None\<rparr>"

text \<open>The \<open>for\<close> loop of one part: \<open>newQuestions\<close> is the accumulator.\<close>

fun injectLoop ::
  "jsstring option \<Rightarrow> int option \<Rightarrow> uploaded_image list \<Rightarrow> question list \<Rightarrow> question list
     \<Rightarrow> question list" where
  "injectLoop testv partv uploadedImages newQuestions [] = newQuestions"
| "injectLoop testv partv uploadedImages newQuestions (question # rest) =
     (let inserted =
        (if type question = Some (js ''map-labelling'')
            \<and> \<not> list_ex (\<lambda>q. type q = Some (js ''image'')) newQuestions
         then (case find isMap uploadedImages of
                 Some mapImage \<Rightarrow> newQuestions @ [imageQuestion testv partv mapImage]
               | None \<Rightarrow> newQuestions)
         else newQuestions)
      in injectLoop testv partv uploadedImages (inserted @ [question]) rest)"

definition injectImageObjects :: "exam_document \<Rightarrow> uploaded_image list \<Rightarrow> error + exam_document" where
  "injectImageObjects structure uploadedImages =
     (if uploadedImages = [] then Inr structure
      else forEachPart
        (\<lambda>partIndex p. Inr (p\<lparr>questions :=
            Some (injectLoop (test structure) (part p) uploadedImages [] (questionsOrEmpty p))\<rparr>))
        structure)"

subsection \<open>Stage 4: processBase64Images\<close>

text \<open>
  The stage writes files. Of the outside world the model takes \<open>writeOk\<close>, which says for
  a file name whether \<open>writeFileSync\<close> succeeds, and \<open>now\<close>, the value of \<open>Date.now()\<close>
  while the question at the given position is processed. A failed write is caught and
  leaves the question as it was.
\<close>

definition processImageQuestion :: "(jsstring \<Rightarrow> bool) \<Rightarrow> int \<Rightarrow> question \<Rightarrow> question" where
  "processImageQuestion writeOk now question =
     (if type question = Some (js ''image'') \<and> truthyStr (base64 question) then
        (let filename =
               tmplStr (orStr (questionId question) (Some (js ''image-'' @ showInt now))) @ js ''.png''
         in if writeOk filename
            then question\<lparr>url := Some (js ''http://localhost:3001/uploads/'' @ filename),
                          base64 := None\<rparr>
            else question)
      else question)"

definition processBase64Images ::
  "(jsstring \<Rightarrow> bool) \<Rightarrow> (nat \<Rightarrow> nat \<Rightarrow> int) \<Rightarrow> exam_document \<Rightarrow> error + exam_document" where
  "processBase64Images writeOk now structure =
     forEachPart
       (\<lambda>partIndex p.
          (case questions p of
             None \<Rightarrow> Inl TypeError
           | Some qs \<Rightarrow>
               Inr (p\<lparr>questions :=
                 Some (map (\<lambda>(questionIndex, q).
                         processImageQuestion writeOk (now partIndex questionIndex) q)
                       (enumerate 0 qs))\<rparr>)))
       structure"

subsection \<open>Stage 5: linkMatchingQuestions\<close>

text \<open>\<open>questions.find\<close> returns the first divider whose \<open>draggableVariants\<close> field is
  truthy; an array is truthy even when it is empty.\<close>

definition findDivider :: "question list \<Rightarrow> question option" where
  "findDivider qs =
     find (\<lambda>q. type q = Some (js ''divider'') \<and> draggableVariants q \<noteq> None) qs"

definition partDraggableVariants :: "question list \<Rightarrow> jsstring list" where
  "partDraggableVariants qs =
     (case findDivider qs of
        None \<Rightarrow> []
      | Some divider \<Rightarrow> (case draggableVariants divider of None \<Rightarrow> [] | Some dv \<Rightarrow> dv))"

definition linkQuestion :: "jsstring list \<Rightarrow> question \<Rightarrow> question" where
  "linkQuestion dv question =
     (if type question = Some (js ''matching'') \<and> length dv > 0
      then question\<lparr>draggableVariants := Some dv\<rparr>
      else question)"

text \<open>A part without a questions array is looped over as \<open>[]\<close> and keeps its missing
  field.\<close>

definition linkPart :: "exam_part \<Rightarrow> exam_part" where
  "linkPart p =
     (case questions p of
        None \<Rightarrow> p
      | Some qs \<Rightarrow> p\<lparr>questions := Some (map (linkQuestion (partDraggableVariants qs)) qs)\<rparr>)"

definition linkMatchingQuestions :: "exam_document \<Rightarrow> error + exam_document" where
  "linkMatchingQuestions structure = forEachPart (\<lambda>partIndex p. Inr (linkPart p)) structure"

subsection \<open>Stage 6: standardizeQuestionIds\<close>

text \<open>
  The character class of the two \<open>replace\<close> calls, as it stands in the source file, holds
  the code units U+00E2, U+20AC, U+201C and U+201D.
\<close>

definition dashClass :: "nat \<Rightarrow> bool" where
  "dashClass c \<longleftrightarrow> c = 226 \<or> c = 8364 \<or> c = 8220 \<or> c = 8221"

definition replaceDashes :: "jsstring \<Rightarrow> jsstring" where
  "replaceDashes s = map (\<lambda>c. if dashClass c then 45 else c) s"

definition standardizeQuestion :: "question \<Rightarrow> question" where
  "standardizeQuestion question =
     (let q1 = (if truthyStr (questionId question)
                then question\<lparr>questionId := map_option replaceDashes (questionId question)\<rparr>
                else question)
      in if truthyStr (numberRange q1)
         then q1\<lparr>numberRange := map_option replaceDashes (numberRange q1)\<rparr>
         else q1)"

definition standardizeQuestionIds :: "exam_document \<Rightarrow> error + exam_document" where
  "standardizeQuestionIds structure =
     forEachPart
       (\<lambda>partIndex p.
          (case questions p of
             None \<Rightarrow> Inl TypeError
           | Some qs \<Rightarrow> Inr (p\<lparr>questions := Some (map standardizeQuestion qs)\<rparr>)))
       structure"

subsection \<open>Stage 7: enforceQuestionNumbering\<close>

definition numberQuestion ::
  "jsstring option \<Rightarrow> int option \<Rightarrow> nat \<Rightarrow> nat \<Rightarrow> question \<Rightarrow> question" where
  "numberQuestion testv partv partIndex questionIndex question =
     (if type question \<noteq> Some (js ''divider'') \<and> type question \<noteq> Some (js ''image'') then
        (let expectedNumber = (int partIndex * 10) + int questionIndex + 1;
             q1 = question\<lparr>number := Some expectedNumber\<rparr>
         in if truthyStr (questionId q1)
            then q1\<lparr>questionId := Some (js ''listening-'' @ tmplStr testv @ js ''-''
                                        @ tmplInt partv @ js ''-'' @ showInt expectedNumber)\<rparr>
            else q1)
      else question)"

definition enforceQuestionNumbering :: "exam_document \<Rightarrow> error + exam_document" where
  "enforceQuestionNumbering structure =
     forEachPart
       (\<lambda>partIndex p.
          (case questions p of
             None \<Rightarrow> Inl TypeError
           | Some qs \<Rightarrow>
               Inr (p\<lparr>questions :=
                 Some (map (\<lambda>(questionIndex, q).
                         numberQuestion (test structure) (part p) partIndex questionIndex q)
                       (enumerate 0 qs))\<rparr>)))
       structure"

subsection \<open>Stage 8: validateRequiredFields\<close>

record validation =
  valid :: bool
  errors :: "jsstring list"

definition questionErrors :: "nat \<Rightarrow> nat \<Rightarrow> question \<Rightarrow> jsstring list" where
  "questionErrors partIndex questionIndex question =
     (if type question = Some (js ''divider'') \<or> type question = Some (js ''image'') then []
      else
        (let here = js ''Part '' @ showInt (int partIndex) @ js '', Question ''
                      @ showInt (int questionIndex)
         in (if \<not> truthyStr (questionId question) then [here @ js '': Missing questionId''] else [])
          @ (if \<not> truthyNum (number question) then [here @ js '': Missing number''] else [])
          @ (if \<not> truthyStr (type question) then [here @ js '': Missing type''] else [])
          @ (if \<not> truthyStr (inputType question) then [here @ js '': Missing inputType''] else [])
          @ (if isInteractive question = None then [here @ js '': Missing isInteractive''] else [])
          @ (if answer question = None then [here @ js '': Missing answer object''] else [])))"

definition partErrors :: "nat \<Rightarrow> exam_part \<Rightarrow> error + jsstring list" where
  "partErrors partIndex p =
     (let here = js ''Part '' @ showInt (int partIndex);
          own =
            (if \<not> truthyNum (part p) then [here @ js '': Missing part number''] else [])
          @ (if \<not> truthyStr (instructions p) then [here @ js '': Missing instructions''] else [])
          @ (if \<not> truthyStr (questionsRange p) then [here @ js '': Missing questionsRange''] else [])
          @ (if questions p = None then [here @ js '': Missing or invalid questions array''] else [])
      in case questions p of
           None \<Rightarrow> Inl TypeError
         | Some qs \<Rightarrow>
             Inr (own @ concat (map (\<lambda>(questionIndex, q). questionErrors partIndex questionIndex q)
                                 (enumerate 0 qs))))"

definition validateRequiredFields :: "exam_document \<Rightarrow> error + validation" where
  "validateRequiredFields structure =
     (let top =
            (if \<not> truthyStr (test structure) then [js ''Missing test number''] else [])
          @ (if \<not> truthyStr (sectionName structure) then [js ''Missing section name''] else [])
          @ (if parts structure = None then [js ''Missing or invalid parts array''] else [])
      in case parts structure of
           None \<Rightarrow> Inl TypeError
         | Some ps \<Rightarrow>
             (case sequence (map (\<lambda>(partIndex, p). partErrors partIndex p) (enumerate 0 ps)) of
                Inl e \<Rightarrow> Inl e
              | Inr es \<Rightarrow>
                  (let errors = top @ concat es
                   in Inr \<lparr>valid = (length errors = 0), errors = errors\<rparr>)))"

section \<open>The pipeline of the extraction endpoints\<close>

text \<open>
  Step 1 of an endpoint is \<open>structure = mergeDuplicateParts(structure.parts ? structure.parts : [])\<close>
  followed by \<open>structure = { ...structure, parts: structure }\<close>. At the second line
  \<open>structure\<close> is the merged array, so the new object has the parts and, of the fields the
  pipeline reads, nothing else: \<open>test\<close> and \<open>section\<close> are absent when stage 2 starts.
\<close>

definition mergeStage :: "exam_document \<Rightarrow> exam_document" where
  "mergeStage structure =
     \<lparr>test = None, sectionName = None,
      parts = Some (mergeDuplicateParts (case parts structure of None \<Rightarrow> [] | Some ps \<Rightarrow> ps))\<rparr>"

definition andThen :: "error + 'a \<Rightarrow> ('a \<Rightarrow> error + 'b) \<Rightarrow> error + 'b" where
  "andThen r f = (case r of Inl e \<Rightarrow> Inl e | Inr v \<Rightarrow> f v)"

text \<open>Steps 1 to 7 of the listening and reading endpoints (the writing endpoint leaves
  out stages 5 and 7).\<close>

definition postProcess ::
  "(jsstring \<Rightarrow> bool) \<Rightarrow> (nat \<Rightarrow> nat \<Rightarrow> int) \<Rightarrow> uploaded_image list \<Rightarrow> exam_document
     \<Rightarrow> error + exam_document" where
  "postProcess writeOk now uploadedImages structure =
     andThen (injectImageObjects (validateAndFixStructure (mergeStage structure)) uploadedImages)
       (\<lambda>s3. andThen (processBase64Images writeOk now s3)
         (\<lambda>s4. andThen (linkMatchingQuestions s4)
           (\<lambda>s5. andThen (standardizeQuestionIds s5) enforceQuestionNumbering)))"

section \<open>The OCR gateway: extractText\<close>

text \<open>
  \<open>extractText\<close> talks to the outside world through three calls: the health check of the
  docTR service, the docTR extraction and the Tesseract extraction. The world is given by
  the answer to the \<open>n\<close>-th call of each kind (health may change between calls). What the
  gateway does is recorded as a trace of events: each call, and each \<open>setTimeout\<close> delay
  with its milliseconds. An extraction answers with the recognised payload or fails with
  an error message; the gateway adds the \<open>service\<close> tag.
\<close>

datatype event = HealthCheck | DocTRExtract | TesseractExtract | Delay nat

record 'r world =
  healthAt :: "nat \<Rightarrow> bool"
  doctrAt :: "nat \<Rightarrow> jsstring + 'r"
  tesseractAt :: "nat \<Rightarrow> jsstring + 'r"

record 'r ocr_result =
  payload :: 'r
  service :: jsstring

record ocr_service =
  primaryService :: jsstring
  fallbackService :: jsstring
  maxRetries :: int

text \<open>The constructor: \<open>options.x || default\<close>. \<open>envOcrService\<close> is \<open>process.env.OCR_SERVICE\<close>.\<close>

record ocr_options =
  optPrimaryService :: "jsstring option"
  optFallbackService :: "jsstring option"
  optMaxRetries :: "int option"

definition newOCRService :: "ocr_options \<Rightarrow> jsstring option \<Rightarrow> ocr_service" where
  "newOCRService opts envOcrService =
     \<lparr>primaryService =
        tmplStr (orStr (orStr (optPrimaryService opts) envOcrService) (Some (js ''tesseract''))),
      fallbackService = tmplStr (orStr (optFallbackService opts) (Some (js ''tesseract''))),
      maxRetries = (if truthyNum (optMaxRetries opts) then the (optMaxRetries opts) else 2)\<rparr>"

text \<open>What \<open>extractText\<close> can throw: an \<open>Error\<close> with a message, the value \<open>null\<close> (the
  initial \<open>lastError\<close>), or the \<open>TypeError\<close> of reading \<open>lastError.message\<close> of \<open>null\<close>.\<close>

datatype thrown = Err jsstring | ThrownNull | NullMessage

definition countEvent :: "event \<Rightarrow> event list \<Rightarrow> nat" where
  "countEvent e tr = length (filter (\<lambda>x. x = e) tr)"

definition isDocTRHealthy :: "'r world \<Rightarrow> event list \<Rightarrow> bool \<times> event list" where
  "isDocTRHealthy w tr = (healthAt w (countEvent HealthCheck tr), tr @ [HealthCheck])"

definition extractTextWithDocTR ::
  "'r world \<Rightarrow> event list \<Rightarrow> (jsstring + 'r ocr_result) \<times> event list" where
  "extractTextWithDocTR w tr =
     (case doctrAt w (countEvent DocTRExtract tr) of
        Inl msg \<Rightarrow> Inl msg
      | Inr r \<Rightarrow> Inr \<lparr>payload = r, service = js ''docTR''\<rparr>,
      tr @ [DocTRExtract])"

definition extractTextWithTesseract ::
  "'r world \<Rightarrow> event list \<Rightarrow> (jsstring + 'r ocr_result) \<times> event list" where
  "extractTextWithTesseract w tr =
     (case tesseractAt w (countEvent TesseractExtract tr) of
        Inl msg \<Rightarrow> Inl msg
      | Inr r \<Rightarrow> Inr \<lparr>payload = r, service = js ''Tesseract''\<rparr>,
      tr @ [TesseractExtract])"

text \<open>The body of each \<open>try\<close>: the service named \<open>doctr\<close> is health-checked and, when
  unhealthy, fails with the given message; any other name is Tesseract.\<close>

definition tryService ::
  "'r world \<Rightarrow> jsstring \<Rightarrow> jsstring \<Rightarrow> event list \<Rightarrow> (jsstring + 'r ocr_result) \<times> event list" where
  "tryService w name unhealthy tr =
     (if name = js ''doctr'' then
        (case isDocTRHealthy w tr of
           (healthy, tr1) \<Rightarrow>
             if healthy then extractTextWithDocTR w tr1 else (Inl unhealthy, tr1))
      else extractTextWithTesseract w tr)"

text \<open>The \<open>while\<close> loop over the primary service. It ends with the result of a successful
  attempt (\<open>Inl\<close>) or, when the attempts are used up, with \<open>lastError\<close> (\<open>Inr\<close>).\<close>

function primaryLoop ::
  "ocr_service \<Rightarrow> 'r world \<Rightarrow> int \<Rightarrow> jsstring option \<Rightarrow> event list
     \<Rightarrow> ('r ocr_result + jsstring option) \<times> event list" where
  "primaryLoop cfg w attempts lastError tr =
     (if attempts < maxRetries cfg then
        (case tryService w (primaryService cfg) (js ''docTR service is unhealthy'') tr of
           (Inr res, tr1) \<Rightarrow> (Inl res, tr1)
         | (Inl msg, tr1) \<Rightarrow>
             primaryLoop cfg w (attempts + 1) (Some msg)
               (if attempts + 1 < maxRetries cfg then tr1 @ [Delay 1000] else tr1))
      else (Inr lastError, tr))"
  by pat_completeness auto
termination
  by (relation "measure (\<lambda>(cfg, w, attempts, lastError, tr). nat (maxRetries cfg - attempts))") auto

declare primaryLoop.simps [simp del]

definition extractText :: "ocr_service \<Rightarrow> 'r world \<Rightarrow> (thrown + 'r ocr_result) \<times> event list" where
  "extractText cfg w =
     (case primaryLoop cfg w 0 None [] of
        (Inl res, tr) \<Rightarrow> (Inr res, tr)
      | (Inr lastError, tr) \<Rightarrow>
          if fallbackService cfg \<noteq> primaryService cfg then
            (case tryService w (fallbackService cfg) (js ''docTR fallback service is also unhealthy'') tr of
               (Inr res, tr1) \<Rightarrow> (Inr res, tr1)
             | (Inl fallbackError, tr1) \<Rightarrow>
                 (case lastError of
                    None \<Rightarrow> (Inl NullMessage, tr1)
                  | Some msg \<Rightarrow>
                      (Inl (Err (js ''Both primary ('' @ primaryService cfg @ js '') and fallback (''
                                 @ fallbackService cfg @ js '') OCR services failed. Last error: ''
                                 @ msg)), tr1)))
          else (Inl (case lastError of None \<Rightarrow> ThrownNull | Some msg \<Rightarrow> Err msg), tr))"

section \<open>Regular expressions of the text cleaners\<close>

text \<open>
  Every pattern of \<open>cleanOCRText\<close> and \<open>cleanJsonString\<close> is used with the \<open>g\<close> flag in
  \<open>String.prototype.replace\<close>: the string is scanned from the left; where the pattern
  matches, the match is replaced and the scan goes on behind it; where it does not, the
  code unit is copied. A pattern is modelled by its matcher: given the rest of the string
  at the scan position, it returns the replacement and the length of the match. No
  pattern looks behind the scan position, and no pattern matches the empty string.
\<close>

type_synonym matcher = "jsstring \<Rightarrow> (jsstring \<times> nat) option"

function replaceAll :: "matcher \<Rightarrow> jsstring \<Rightarrow> jsstring" where
  "replaceAll m [] = []"
| "replaceAll m (c # cs) =
     (case m (c # cs) of
        Some (out, n) \<Rightarrow> out @ replaceAll m (drop (n - 1) cs)
      | None \<Rightarrow> c # replaceAll m cs)"
  by pat_completeness auto
termination
  by (relation "measure (\<lambda>(m, s). length s)") auto

subsection \<open>Character classes\<close>

text \<open>\<open>\s\<close>: white space and line terminators, which are also what \<open>trim\<close> strips.\<close>

definition isSpace :: "nat \<Rightarrow> bool" where
  "isSpace c \<longleftrightarrow>
     c = 9 \<or> c = 10 \<or> c = 11 \<or> c = 12 \<or> c = 13 \<or> c = 32 \<or> c = 160 \<or> c = 5760 \<or>
     (8192 \<le> c \<and> c \<le> 8202) \<or> c = 8232 \<or> c = 8233 \<or> c = 8239 \<or> c = 8287 \<or>
     c = 12288 \<or> c = 65279"

definition isDigit :: "nat \<Rightarrow> bool" where
  "isDigit c \<longleftrightarrow> 48 \<le> c \<and> c \<le> 57"

definition isLower :: "nat \<Rightarrow> bool" where
  "isLower c \<longleftrightarrow> 97 \<le> c \<and> c \<le> 122"

definition isUpper :: "nat \<Rightarrow> bool" where
  "isUpper c \<longleftrightarrow> 65 \<le> c \<and> c \<le> 90"

definition isAlpha :: "nat \<Rightarrow> bool" where
  "isAlpha c \<longleftrightarrow> isLower c \<or> isUpper c"

text \<open>\<open>[a-zA-Z0-9_]\<close>\<close>

definition isWordChar :: "nat \<Rightarrow> bool" where
  "isWordChar c \<longleftrightarrow> isAlpha c \<or> isDigit c \<or> c = 95"

text \<open>The characters that \<open>.\<close> does not match.\<close>

definition isLineTerminator :: "nat \<Rightarrow> bool" where
  "isLineTerminator c \<longleftrightarrow> c = 10 \<or> c = 13 \<or> c = 8232 \<or> c = 8233"

text \<open>
  A literal word under the \<open>i\<close> flag (without the \<open>u\<close> flag): a code unit outside ASCII
  never matches an ASCII letter, so only the two ASCII cases of each letter match. The
  word is given in lower case.
\<close>

definition lowerAscii :: "nat \<Rightarrow> nat" where
  "lowerAscii c = (if isUpper c then c + 32 else c)"

fun startsWithCI :: "jsstring \<Rightarrow> jsstring \<Rightarrow> bool" where
  "startsWithCI s [] = True"
| "startsWithCI [] (p # ps) = False"
| "startsWithCI (c # cs) (p # ps) = (lowerAscii c = p \<and> startsWithCI cs ps)"

subsection \<open>Matchers\<close>

text \<open>\<open>/word\s*\d+/gi\<close>, replaced by the empty string.\<close>

definition wordNumber :: "jsstring \<Rightarrow> matcher" where
  "wordNumber word s =
     (if startsWithCI s word then
        (let r = drop (length word) s;
             ws = takeWhile isSpace r;
             ds = takeWhile isDigit (dropWhile isSpace r)
         in if ds \<noteq> [] then Some ([], length word + length ws + length ds) else None)
      else None)"

text \<open>\<open>/word1\s*word2/gi\<close>, replaced by the empty string.\<close>

definition twoWords :: "jsstring \<Rightarrow> jsstring \<Rightarrow> matcher" where
  "twoWords word1 word2 s =
     (if startsWithCI s word1 then
        (let r = drop (length word1) s;
             ws = takeWhile isSpace r
         in if startsWithCI (dropWhile isSpace r) word2
            then Some ([], length word1 + length ws + length word2) else None)
      else None)"

text \<open>One code unit of a class, replaced by \<open>out\<close>.\<close>

definition oneOf :: "(nat \<Rightarrow> bool) \<Rightarrow> jsstring \<Rightarrow> matcher" where
  "oneOf P out s = (case s of [] \<Rightarrow> None | c # r \<Rightarrow> if P c then Some (out, 1) else None)"

text \<open>A run of at least \<open>least\<close> code units of a class (\<open>x+\<close>, \<open>xx+\<close>), replaced by
  \<open>out\<close>.\<close>

definition runOf :: "(nat \<Rightarrow> bool) \<Rightarrow> nat \<Rightarrow> jsstring \<Rightarrow> matcher" where
  "runOf P least out s =
     (let run = takeWhile P s
      in if least \<le> length run \<and> 0 < length run then Some (out, length run) else None)"

text \<open>\<open>/\s*[x]\s*/g\<close>: a code unit of a class with the white space around it.\<close>

definition spacedOneOf :: "(nat \<Rightarrow> bool) \<Rightarrow> jsstring \<Rightarrow> matcher" where
  "spacedOneOf P out s =
     (let lead = takeWhile isSpace s
      in case dropWhile isSpace s of
           [] \<Rightarrow> None
         | c # r \<Rightarrow>
             if P c then Some (out, length lead + 1 + length (takeWhile isSpace r))
             else None)"

text \<open>\<open>/(\d+)\s*\.\s*/g\<close>, replaced by the digits, a full stop and a space.\<close>

definition numberDot :: matcher where
  "numberDot s =
     (let ds = takeWhile isDigit s;
          r = dropWhile isDigit s;
          ws = takeWhile isSpace r
      in if ds = [] then None
         else case dropWhile isSpace r of
                [] \<Rightarrow> None
              | c # r' \<Rightarrow>
                  if c = 46
                  then Some (ds @ [46, 32],
                             length ds + length ws + 1 + length (takeWhile isSpace r'))
                  else None)"

text \<open>\<open>/x\s*\.\s*/g\<close> for a code unit \<open>x\<close> of a class, replaced by \<open>out\<close>.\<close>

definition charDot :: "(nat \<Rightarrow> bool) \<Rightarrow> jsstring \<Rightarrow> matcher" where
  "charDot P out s =
     (case s of
        [] \<Rightarrow> None
      | x # r \<Rightarrow>
          if P x then
            (let ws = takeWhile isSpace r
             in case dropWhile isSpace r of
                  [] \<Rightarrow> None
                | c # r' \<Rightarrow>
                    if c = 46 then Some (out, 1 + length ws + 1 + length (takeWhile isSpace r'))
                    else None)
          else None)"

text \<open>
  \<open>/([a-zA-Z])-\s*\n\s*([a-zA-Z])/g\<close>, replaced by the two letters. The white space
  between the hyphen and the second letter is one run, and the pattern matches when a
  line feed is in it.
\<close>

definition hyphenBreak :: matcher where
  "hyphenBreak s =
     (case s of
        a # h # r \<Rightarrow>
          if isAlpha a \<and> h = 45 then
            (let ws = takeWhile isSpace r
             in case dropWhile isSpace r of
                  [] \<Rightarrow> None
                | b # r' \<Rightarrow>
                    if 10 \<in> set ws \<and> isAlpha b then Some ([a, b], 2 + length ws + 1)
                    else None)
          else None
      | _ \<Rightarrow> None)"

text \<open>\<open>/([a-zA-Z])-([a-zA-Z])/g\<close>, replaced by the two letters.\<close>

definition hyphenJoin :: matcher where
  "hyphenJoin s =
     (case s of
        a # h # b # r \<Rightarrow> if isAlpha a \<and> h = 45 \<and> isAlpha b then Some ([a, b], 3) else None
      | _ \<Rightarrow> None)"

text \<open>\<open>/\n(?=[a-z])/g\<close>, replaced by a space.\<close>

definition lineFeedBeforeLower :: matcher where
  "lineFeedBeforeLower s =
     (case s of
        n # b # r \<Rightarrow> if n = 10 \<and> isLower b then Some ([32], 1) else None
      | _ \<Rightarrow> None)"

text \<open>\<open>/(x)(y)/g\<close> for two classes, replaced by the two code units with \<open>sep\<close> between.\<close>

definition pairOf :: "(nat \<Rightarrow> bool) \<Rightarrow> (nat \<Rightarrow> bool) \<Rightarrow> jsstring \<Rightarrow> matcher" where
  "pairOf P Q sep s =
     (case s of
        a # b # r \<Rightarrow> if P a \<and> Q b then Some ([a] @ sep @ [b], 2) else None
      | _ \<Rightarrow> None)"

text \<open>\<open>/([.?!])\s*([A-Z])/g\<close>, replaced by the mark, a space and the capital.\<close>

definition sentenceStart :: matcher where
  "sentenceStart s =
     (case s of
        [] \<Rightarrow> None
      | p # r \<Rightarrow>
          if p = 46 \<or> p = 63 \<or> p = 33 then
            (let ws = takeWhile isSpace r
             in case dropWhile isSpace r of
                  [] \<Rightarrow> None
                | b # r' \<Rightarrow> if isUpper b then Some ([p, 32, b], 1 + length ws + 1) else None)
          else None)"

text \<open>\<open>String.prototype.trim\<close>\<close>

definition trim :: "jsstring \<Rightarrow> jsstring" where
  "trim s = rev (dropWhile isSpace (rev (dropWhile isSpace s)))"

section \<open>cleanOCRText\<close>

definition isDash :: "nat \<Rightarrow> bool" where
  "isDash c \<longleftrightarrow> c = 45 \<or> c = 8211 \<or> c = 8212"

definition collapseSpaces :: "jsstring \<Rightarrow> jsstring" where
  "collapseSpaces s = replaceAll (runOf isSpace 1 [32]) s"


section \<open>cleanJsonString and parseJsonSafely\<close>

subsection \<open>Matchers of cleanJsonString\<close>

text \<open>\<open>/word\s*/gi\<close>, replaced by the empty string (the code fences).\<close>

definition wordSpaces :: "jsstring \<Rightarrow> matcher" where
  "wordSpaces word s =
     (if startsWithCI s word
      then Some ([], length word + length (takeWhile isSpace (drop (length word) s)))
      else None)"

text \<open>What \<open>([a-zA-Z0-9_]+)\s*:\<close> matches at the start of a string: the name and the
  length of the match.\<close>

definition keyColon :: "jsstring \<Rightarrow> (jsstring \<times> nat) option" where
  "keyColon s =
     (let name = takeWhile isWordChar s;
          r = dropWhile isWordChar s;
          ws = takeWhile isSpace r
      in if name = [] then None
         else case dropWhile isSpace r of
                [] \<Rightarrow> None
              | c # r' \<Rightarrow> if c = 58 then Some (name, length name + length ws + 1) else None)"

text \<open>\<open>/([,{]\s*)([a-zA-Z0-9_]+)\s*:/g\<close>, replaced by \<open>$1"$2":\<close>.\<close>

definition unquotedKey :: matcher where
  "unquotedKey s =
     (case s of
        [] \<Rightarrow> None
      | c # r \<Rightarrow>
          if c = 44 \<or> c = 123 then
            (let ws = takeWhile isSpace r
             in case keyColon (dropWhile isSpace r) of
                  None \<Rightarrow> None
                | Some (name, n) \<Rightarrow> Some ([c] @ ws @ [34] @ name @ [34, 58], 1 + length ws + n))
          else None)"

text \<open>\<open>/(^\s*)([a-zA-Z0-9_]+)\s*:/g\<close>, replaced by \<open>$1"$2":\<close>. Without the \<open>m\<close> flag the
  anchor holds at the start of the string only, so there is at most this one match.\<close>

definition quoteLeadingKey :: "jsstring \<Rightarrow> jsstring" where
  "quoteLeadingKey s =
     (let ws = takeWhile isSpace s
      in case keyColon (dropWhile isSpace s) of
           None \<Rightarrow> s
         | Some (name, n) \<Rightarrow> ws @ [34] @ name @ [34, 58] @ drop (length ws + n) s)"

text \<open>\<open>/,\s*([}\]])/g\<close>, replaced by the bracket.\<close>

definition trailingComma :: matcher where
  "trailingComma s =
     (case s of
        [] \<Rightarrow> None
      | c # r \<Rightarrow>
          if c = 44 then
            (case dropWhile isSpace r of
               [] \<Rightarrow> None
             | b # r' \<Rightarrow>
                 if b = 125 \<or> b = 93 then Some ([b], 1 + length (takeWhile isSpace r) + 1)
                 else None)
          else None)"

text \<open>\<open>/([^\\])\\"/g\<close> with the replacement \<open>$1\"\<close>: the match is put back as it was.\<close>

definition escapedQuote :: matcher where
  "escapedQuote s =
     (case s of
        a # b # q # r \<Rightarrow> if a \<noteq> 92 \<and> b = 92 \<and> q = 34 then Some ([a, 92, 34], 3) else None
      | _ \<Rightarrow> None)"

text \<open>
  \<open>/(".*?)"[\r\n]+/g\<close>. Behind the opening quote the lazy \<open>.*?\<close> stops at the first quote
  that is followed by a carriage return or line feed; \<open>closingQuote\<close> is its distance, and
  there is none when a line terminator comes first. The callback replaces \<open>/\r?\n/g\<close> in
  the captured text by a backslash and \<open>n\<close> and appends the quote; the line breaks behind
  the quote are dropped.
\<close>

fun closingQuote :: "jsstring \<Rightarrow> nat option" where
  "closingQuote [] = None"
| "closingQuote (c # cs) =
     (if c = 34 \<and> (case cs of [] \<Rightarrow> False | d # r \<Rightarrow> d = 13 \<or> d = 10) then Some 0
      else if isLineTerminator c then None
      else map_option Suc (closingQuote cs))"

definition lineBreak :: matcher where
  "lineBreak s =
     (case s of
        [] \<Rightarrow> None
      | c # r \<Rightarrow>
          if c = 10 then Some ([92, 110], 1)
          else if c = 13 then (case r of [] \<Rightarrow> None
                               | d # r' \<Rightarrow> if d = 10 then Some ([92, 110], 2) else None)
          else None)"

definition quotedLine :: matcher where
  "quotedLine s =
     (case s of
        [] \<Rightarrow> None
      | q # r \<Rightarrow>
          if q = 34 then
            (case closingQuote r of
               None \<Rightarrow> None
             | Some k \<Rightarrow>
                 (let content = q # take k r;
                      breaks = takeWhile (\<lambda>c. c = 13 \<or> c = 10) (drop (k + 1) r)
                  in Some (replaceAll lineBreak content @ [34], 1 + k + 1 + length breaks)))
          else None)"

text \<open>\<open>/[\x00-\x08\x0B\x0C\x0E-\x1F]/g\<close>\<close>

definition isControl :: "nat \<Rightarrow> bool" where
  "isControl c \<longleftrightarrow> c \<le> 8 \<or> c = 11 \<or> c = 12 \<or> (14 \<le> c \<and> c \<le> 31)"

subsection \<open>cleanJsonString\<close>

text \<open>The argument is a string; the guard \<open>!rawJsonString\<close> rejects the empty one. An
  error is its message.\<close>

definition cleanJsonString :: "jsstring \<Rightarrow> jsstring + jsstring" where
  "cleanJsonString rawJsonString =
     (if rawJsonString = [] then Inl (js ''Invalid JSON string provided'')
      else Inr
        ((trim
          \<circ> replaceAll (oneOf isControl [])
          \<circ> replaceAll quotedLine
          \<circ> replaceAll escapedQuote
          \<circ> replaceAll trailingComma
          \<circ> quoteLeadingKey
          \<circ> replaceAll unquotedKey
          \<circ> replaceAll (wordSpaces [96, 96, 96])
          \<circ> replaceAll (wordSpaces ([96, 96, 96] @ js ''json''))) rawJsonString))"

subsection \<open>parseJsonSafely\<close>

text \<open>
  \<open>rawJsonString.match(/\{.*\}/s)\<close>: with the \<open>s\<close> flag the dot matches every code unit, and
  the star is greedy, so the match runs from the first opening brace to the last closing
  brace behind it.
\<close>

definition extractJson :: "jsstring \<Rightarrow> jsstring option" where
  "extractJson s =
     (let fromBrace = dropWhile (\<lambda>c. c \<noteq> 123) s
      in if 125 \<in> set fromBrace
         then Some (rev (dropWhile (\<lambda>c. c \<noteq> 125) (rev fromBrace)))
         else None)"

text \<open>
  \<open>JSON.parse\<close> and the \<open>jsonrepair\<close> package are libraries: \<open>parse\<close> returns the parsed
  value or fails (\<open>None\<close>), and \<open>jsonrepair\<close> is absent (\<open>None\<close>, the package is not
  installed) or returns the repaired text or fails. The four attempts, each with its
  failure caught:
\<close>

definition attemptDirect :: "(jsstring \<Rightarrow> 'v option) \<Rightarrow> jsstring \<Rightarrow> 'v option" where
  "attemptDirect parse rawJsonString = parse rawJsonString"

definition attemptCleaned :: "(jsstring \<Rightarrow> 'v option) \<Rightarrow> jsstring \<Rightarrow> 'v option" where
  "attemptCleaned parse rawJsonString =
     (case cleanJsonString rawJsonString of Inl e \<Rightarrow> None | Inr cleaned \<Rightarrow> parse cleaned)"

definition attemptRepaired ::
  "(jsstring \<Rightarrow> 'v option) \<Rightarrow> (jsstring \<Rightarrow> jsstring option) option \<Rightarrow> jsstring \<Rightarrow> 'v option" where
  "attemptRepaired parse jsonrepair rawJsonString =
     (case jsonrepair of
        None \<Rightarrow> None
      | Some repair \<Rightarrow>
          (case repair rawJsonString of None \<Rightarrow> None | Some repaired \<Rightarrow> parse repaired))"

definition attemptExtracted :: "(jsstring \<Rightarrow> 'v option) \<Rightarrow> jsstring \<Rightarrow> 'v option" where
  "attemptExtracted parse rawJsonString =
     (case extractJson rawJsonString of
        None \<Rightarrow> None
      | Some extracted \<Rightarrow>
          (case cleanJsonString extracted of Inl e \<Rightarrow> None | Inr cleaned \<Rightarrow> parse cleaned))"

definition truncatedResponse :: "jsstring \<Rightarrow> jsstring" where
  "truncatedResponse rawJsonString =
     (if length rawJsonString > 200 then take 200 rawJsonString @ js ''...''
      else rawJsonString)"

definition parseJsonSafely ::
  "(jsstring \<Rightarrow> 'v option) \<Rightarrow> (jsstring \<Rightarrow> jsstring option) option \<Rightarrow> jsstring \<Rightarrow> jsstring
     \<Rightarrow> jsstring + 'v" where
  "parseJsonSafely parse jsonrepair rawJsonString context =
     (if rawJsonString = [] then Inl (js ''Empty '' @ context @ js '' response received'')
      else case attemptDirect parse rawJsonString of
        Some v \<Rightarrow> Inr v
      | None \<Rightarrow>
         (case attemptCleaned parse rawJsonString of
            Some v \<Rightarrow> Inr v
          | None \<Rightarrow>
             (case attemptRepaired parse jsonrepair rawJsonString of
                Some v \<Rightarrow> Inr v
              | None \<Rightarrow>
                 (case attemptExtracted parse rawJsonString of
                    Some v \<Rightarrow> Inr v
                  | None \<Rightarrow>
                      Inl (js ''Failed to parse '' @ context
                           @ js '' JSON after all repair attempts. Raw response: ''
                           @ truncatedResponse rawJsonString)))))"

section \<open>Vocabulary of the properties\<close>

text \<open>The first part of a sequence that carries a given part number, and the questions
  of all parts with that number, in the order of the sequence.\<close>

definition firstWith :: "int option \<Rightarrow> 'a exam_part_scheme list \<Rightarrow> 'a exam_part_scheme option" where
  "firstWith k ps = find (\<lambda>p. part p = k) ps"

definition questionsOf :: "int option \<Rightarrow> 'a exam_part_scheme list \<Rightarrow> question list" where
  "questionsOf k ps = concat (map questionsOrEmpty (filter (\<lambda>p. part p = k) ps))"

text \<open>What the loop of \<open>mergeDuplicateParts\<close> maintains: the map holds one entry per
  part number seen so far, the first part with that number, carrying all questions seen
  under that number.\<close>

definition mergeInv ::
  "'a exam_part_scheme list \<Rightarrow> (int option \<times> 'a exam_part_scheme) list \<Rightarrow> bool" where
  "mergeInv ps m \<longleftrightarrow>
     distinct (map fst m) \<and>
     (\<forall>k. map_of m k = (case firstWith k ps of None \<Rightarrow> None
                         | Some p \<Rightarrow> Some (p\<lparr>questions := Some (questionsOf k ps)\<rparr>)))"

definition partNo :: "'a exam_part_scheme \<Rightarrow> int" where
  "partNo p = (case part p of None \<Rightarrow> 0 | Some n \<Rightarrow> n)"

text \<open>Ascending by part number: of two parts that both have a number, the earlier one
  has the smaller or equal number.\<close>

definition ascendingByPart :: "'a exam_part_scheme list \<Rightarrow> bool" where
  "ascendingByPart ps =
     sorted_wrt (\<lambda>a b. case (part a, part b) of (Some x, Some y) \<Rightarrow> x \<le> y | _ \<Rightarrow> True) ps"

subsection \<open>Sample values\<close>

definition mkQuestion :: "jsstring \<Rightarrow> question" where
  "mkQuestion t = \<lparr>questionId = None, number = None, type = None, inputType = None,
     answerConstraints = None, isInteractive = None, answer = None, qtext = Some t,
     questionText = None, qinstructions = None, textList = None, options = None,
     draggableVariants = None, base64 = None, url = None, headline = None,
     numberRange = None\<rparr>"

definition mkPart :: "int option \<Rightarrow> jsstring option \<Rightarrow> question list option \<Rightarrow> exam_part" where
  "mkPart n ins qs = \<lparr>part = n, instructions = ins, questionsRange = None, questions = qs\<rparr>"

definition twoParts2 :: "exam_part list" where
  "twoParts2 =
     [mkPart (Some 2) (Some (js ''first'')) (Some [mkQuestion (js ''A''), mkQuestion (js ''B'')]),
      mkPart (Some 2) (Some (js ''second'')) (Some [mkQuestion (js ''C'')])]"

definition mergedPart2 :: exam_part where
  "mergedPart2 = mkPart (Some 2) (Some (js ''first''))
     (Some [mkQuestion (js ''A''), mkQuestion (js ''B''), mkQuestion (js ''C'')])"

definition unnumberedParts :: "exam_part list" where
  "unnumberedParts = [mkPart (Some 2) None None, mkPart None None None, mkPart (Some 1) None None]"

text \<open>A document on which the stages after stage 2 work: the parts array is present and
  every part has its questions array.\<close>

definition wellFormed :: "exam_document \<Rightarrow> bool" where
  "wellFormed s = (case parts s of None \<Rightarrow> False
                   | Some ps \<Rightarrow> list_all (\<lambda>p. questions p \<noteq> None) ps)"

text \<open>
  A document in which no required field is missing, in the sense of stage 8: the test
  number and the section name, and for every part its number, instructions and questions
  range, and for every question that is no divider and no image its identifier, number,
  type, input type, \<open>isInteractive\<close> and answer.
\<close>

definition questionComplete :: "question \<Rightarrow> bool" where
  "questionComplete q \<longleftrightarrow>
     type q = Some (js ''divider'') \<or> type q = Some (js ''image'') \<or>
     (truthyStr (questionId q) \<and> truthyNum (number q) \<and> truthyStr (type q) \<and>
      truthyStr (inputType q) \<and> isInteractive q \<noteq> None \<and> answer q \<noteq> None)"

definition partComplete :: "exam_part \<Rightarrow> bool" where
  "partComplete p \<longleftrightarrow>
     truthyNum (part p) \<and> truthyStr (instructions p) \<and> truthyStr (questionsRange p) \<and>
     (case questions p of None \<Rightarrow> False | Some qs \<Rightarrow> list_all questionComplete qs)"

definition documentComplete :: "exam_document \<Rightarrow> bool" where
  "documentComplete s \<longleftrightarrow>
     truthyStr (test s) \<and> truthyStr (sectionName s) \<and>
     (case parts s of None \<Rightarrow> False | Some ps \<Rightarrow> list_all partComplete ps)"


text \<open>The numbering invariant: the question at position \<open>i\<close> of the part at index \<open>p\<close>
  has number \<open>10 * p + i + 1\<close> unless it is a divider or an image.\<close>

definition numberingInvariant :: "exam_document \<Rightarrow> bool" where
  "numberingInvariant s \<longleftrightarrow>
     (\<exists>ps. parts s = Some ps \<and>
        (\<forall>p<length ps. \<exists>qs. questions (ps ! p) = Some qs \<and>
           (\<forall>i<length qs.
              type (qs ! i) \<noteq> Some (js ''divider'') \<and> type (qs ! i) \<noteq> Some (js ''image'')
                \<longrightarrow> number (qs ! i) = Some (10 * int p + int i + 1))))"

text \<open>Two documents with the same parts and, part by part, questions of the same types
  at the same positions.\<close>

definition sameShape :: "exam_document \<Rightarrow> exam_document \<Rightarrow> bool" where
  "sameShape s s' \<longleftrightarrow>
     (\<exists>ps ps'. parts s = Some ps \<and> parts s' = Some ps' \<and> length ps' = length ps \<and>
        (\<forall>p<length ps. \<exists>qs qs'. questions (ps ! p) = Some qs \<and> questions (ps' ! p) = Some qs' \<and>
           map type qs' = map type qs))"

subsection \<open>Sample documents\<close>

definition emptyQuestion :: question where
  "emptyQuestion = \<lparr>questionId = None, number = None, type = None, inputType = None,
     answerConstraints = None, isInteractive = None, answer = None, qtext = None,
     questionText = None, qinstructions = None, textList = None, options = None,
     draggableVariants = None, base64 = None, url = None, headline = None,
     numberRange = None\<rparr>"

text \<open>A reading document with one part and one question that has no identifier.\<close>

definition readingDoc :: exam_document where
  "readingDoc = \<lparr>test = Some (js ''1''), sectionName = Some (js ''Reading''),
     parts = Some [mkPart (Some 1) None (Some [emptyQuestion])]\<rparr>"

text \<open>A reading document whose question carries an identifier and a fabricated number.\<close>

definition readingDocNumbered :: exam_document where
  "readingDocNumbered = \<lparr>test = Some (js ''1''), sectionName = Some (js ''Reading''),
     parts = Some [mkPart (Some 1) None
       (Some [emptyQuestion\<lparr>questionId := Some (js ''reading-1-1-7''), number := Some 7,
                             type := Some (js ''form-fill'')\<rparr>])]\<rparr>"

text \<open>Documents with a missing array.\<close>

definition docWithoutParts :: exam_document where
  "docWithoutParts = \<lparr>test = Some (js ''1''), sectionName = Some (js ''Listening''), parts = None\<rparr>"

definition docWithoutQuestions :: exam_document where
  "docWithoutQuestions = \<lparr>test = Some (js ''1''), sectionName = Some (js ''Listening''),
     parts = Some [mkPart (Some 1) None None]\<rparr>"

text \<open>An uploaded image that is a map.\<close>

definition mapImage :: uploaded_image where
  "mapImage = \<lparr>imageUrl = js ''http://localhost:3001/uploads/map.png'',
     filename = js ''map.png'', isMap = True\<rparr>"

text \<open>Questions for the matching linkage.\<close>

definition divider :: "jsstring list option \<Rightarrow> question" where
  "divider dv = emptyQuestion\<lparr>type := Some (js ''divider''), draggableVariants := dv\<rparr>"

definition matching :: question where
  "matching = emptyQuestion\<lparr>type := Some (js ''matching'')\<rparr>"

definition docOf :: "question list \<Rightarrow> exam_document" where
  "docOf qs = \<lparr>test = Some (js ''1''), sectionName = Some (js ''Listening''),
     parts = Some [mkPart (Some 1) None (Some qs)]\<rparr>"

text \<open>A document that lacks everything stage 2 can default.\<close>

definition bareDoc :: exam_document where
  "bareDoc = \<lparr>test = None, sectionName = None,
     parts = Some [mkPart None None (Some [emptyQuestion])]\<rparr>"



text \<open>The question identifiers of a document, part by part.\<close>

definition questionIds :: "exam_document \<Rightarrow> jsstring option list list" where
  "questionIds s = (case parts s of None \<Rightarrow> []
                    | Some ps \<Rightarrow> map (\<lambda>p. map questionId (questionsOrEmpty p)) ps)"


text \<open>The same for the variants that the questions carry.\<close>

definition variantsOf :: "exam_document \<Rightarrow> jsstring list option list list" where
  "variantsOf s = (case parts s of None \<Rightarrow> []
                   | Some ps \<Rightarrow> map (\<lambda>p. map draggableVariants (questionsOrEmpty p)) ps)"

definition linkedQuestions :: "question list" where
  "linkedQuestions = [divider (Some [js ''X'', js ''Y'']), matching, matching]"

subsection \<open>The gateway\<close>

text \<open>The events of \<open>k\<close> attempts on an unhealthy docTR primary: \<open>k\<close> health checks with
  a delay of one second between them.\<close>

fun unhealthyEvents :: "nat \<Rightarrow> event list" where
  "unhealthyEvents 0 = []"
| "unhealthyEvents (Suc 0) = [HealthCheck]"
| "unhealthyEvents (Suc (Suc k)) = HealthCheck # Delay 1000 # unhealthyEvents (Suc k)"

text \<open>The service as the application configures it, and a world in which docTR is down
  and Tesseract reads the page.\<close>

definition appService :: ocr_service where
  "appService = newOCRService
     \<lparr>optPrimaryService = Some (js ''doctr''), optFallbackService = Some (js ''tesseract''),
      optMaxRetries = Some 2\<rparr> None"

definition downWorld :: "jsstring world" where
  "downWorld = \<lparr>healthAt = (\<lambda>n. False), doctrAt = (\<lambda>n. Inl (js ''unreachable'')),
     tesseractAt = (\<lambda>n. Inr (js ''page text''))\<rparr>"

subsection \<open>JSON extraction\<close>

text \<open>
  Following the words of the claim, for comparison with \<open>extractJson\<close>: the first balanced
  \<open>{...}\<close> span of a text. \<open>balancedFrom depth s\<close> reads \<open>s\<close> up to the brace that closes
  \<open>depth\<close> open braces.
\<close>

fun balancedFrom :: "nat \<Rightarrow> jsstring \<Rightarrow> jsstring option" where
  "balancedFrom depth [] = None"
| "balancedFrom depth (c # cs) =
     (if c = 123 then map_option (Cons c) (balancedFrom (Suc depth) cs)
      else if c = 125 then
        (if depth \<le> 1 then Some [c] else map_option (Cons c) (balancedFrom (depth - 1) cs))
      else map_option (Cons c) (balancedFrom depth cs))"

fun firstBalancedSpan :: "jsstring \<Rightarrow> jsstring option" where
  "firstBalancedSpan [] = None"
| "firstBalancedSpan (c # cs) =
     (if c = 123 then
        (case balancedFrom 1 cs of
           Some span \<Rightarrow> Some (c # span)
         | None \<Rightarrow> firstBalancedSpan cs)
      else firstBalancedSpan cs)"

text \<open>A parser that accepts the text \<open>{}\<close> and nothing else. On the texts of the runs below
  it answers as \<open>JSON.parse\<close> does.\<close>

definition parseEmptyObject :: "jsstring \<Rightarrow> unit option" where
  "parseEmptyObject s = (if s = js ''{}'' then Some () else None)"

subsection \<open>White space in cleaned text\<close>



section \<open>Properties of the numbers\<close>

text \<open>An integer of magnitude up to \<open>2 ^ 53\<close> is a double: rounding leaves it as it is.\<close>

lemma significandShift_small: "n < 2 ^ 53 \<Longrightarrow> significandShift n = 0"
  by (simp add: significandShift.simps)

lemma roundNat_exact: "n \<le> 2 ^ 53 \<Longrightarrow> roundNat n = n"
proof (cases "n < 2 ^ 53")
  case True
  then show ?thesis by (simp add: roundNat_def significandShift_small)
next
  case False
  assume "n \<le> 2 ^ 53"
  with False have n: "n = 2 ^ 53" by simp
  have "significandShift (2 ^ 53) = 1"
    by (subst significandShift.simps) (simp add: significandShift_small)
  then show ?thesis unfolding n by (simp add: roundNat_def)
qed

lemma roundDouble_exact: "\<bar>x\<bar> \<le> 2 ^ 53 \<Longrightarrow> roundDouble x = x"
proof -
  assume a: "\<bar>x\<bar> \<le> 2 ^ 53"
  show ?thesis
  proof (cases "x < 0")
    case True
    with a have "nat (- x) \<le> 2 ^ 53" by (simp add: nat_le_iff)
    then have "roundNat (nat (- x)) = nat (- x)" by (rule roundNat_exact)
    with True show ?thesis by (simp add: roundDouble_def)
  next
    case False
    with a have "nat x \<le> 2 ^ 53" by (simp add: nat_le_iff)
    then have "roundNat (nat x) = nat x" by (rule roundNat_exact)
    with False show ?thesis by (simp add: roundDouble_def)
  qed
qed






section \<open>Loops that may raise\<close>

lemma sequence_map_Inr_id: "sequence (map Inr ys) = Inr ys"
  by (induction ys) auto

lemma sequence_Inr_D: "sequence xs = Inr ys \<Longrightarrow> xs = map Inr ys"
proof (induction xs arbitrary: ys)
  case Nil
  then show ?case by simp
next
  case (Cons x xs)
  from Cons.prems obtain v vs where x: "x = Inr v" and r: "sequence xs = Inr vs" and ys: "ys = v # vs"
    by (auto split: sum.splits)
  from Cons.IH [OF r] x ys show ?case by simp
qed

lemma sequence_Inr_iff: "sequence xs = Inr ys \<longleftrightarrow> xs = map Inr ys"
  using sequence_Inr_D sequence_map_Inr_id by blast

lemma sequence_map_Inr:
  "sequence (map f xs) = Inr ys \<longleftrightarrow>
     length ys = length xs \<and> (\<forall>i<length xs. f (xs ! i) = Inr (ys ! i))"
  unfolding sequence_Inr_iff
  by (auto simp: list_eq_iff_nth_eq)

lemma sequence_total:
  "(\<forall>x\<in>set xs. \<exists>y. x = Inr y) \<Longrightarrow> \<exists>ys. sequence xs = Inr ys"
  by (induction xs) (auto split: sum.splits)

lemma sequence_enumerate:
  "sequence (map (\<lambda>(i, p). body i p) (enumerate 0 ps)) = Inr ps' \<longleftrightarrow>
     length ps' = length ps \<and> (\<forall>i<length ps. body i (ps ! i) = Inr (ps' ! i))"
  using sequence_map_Inr [of "\<lambda>(i, p). body i p" "enumerate 0 ps" ps']
  by (simp add: nth_enumerate_eq)

lemma forEachPart_None: "parts s = None \<Longrightarrow> forEachPart body s = Inl TypeError"
  by (simp add: forEachPart_def)

lemma forEachPart_Some:
  assumes "parts s = Some ps"
  shows "forEachPart body s = Inr s' \<longleftrightarrow>
     (\<exists>ps'. s' = s\<lparr>parts := Some ps'\<rparr> \<and> length ps' = length ps \<and>
        (\<forall>i<length ps. body i (ps ! i) = Inr (ps' ! i)))"
proof (cases "sequence (map (\<lambda>(i, p). body i p) (enumerate 0 ps))")
  case (Inl e)
  then have "forEachPart body s = Inl e" by (simp add: forEachPart_def assms)
  moreover have "\<not> (\<exists>ps'. length ps' = length ps \<and>
        (\<forall>i<length ps. body i (ps ! i) = Inr (ps' ! i)))"
    using Inl sequence_enumerate [of body ps] by auto
  ultimately show ?thesis by auto
next
  case (Inr qs)
  then have f: "forEachPart body s = Inr (s\<lparr>parts := Some qs\<rparr>)"
    by (simp add: forEachPart_def assms)
  from Inr have q: "length qs = length ps" "\<forall>i<length ps. body i (ps ! i) = Inr (qs ! i)"
    by (simp_all add: sequence_enumerate)
  show ?thesis
  proof
    assume "forEachPart body s = Inr s'"
    with f have "s' = s\<lparr>parts := Some qs\<rparr>" by simp
    with q show "\<exists>ps'. s' = s\<lparr>parts := Some ps'\<rparr> \<and> length ps' = length ps \<and>
        (\<forall>i<length ps. body i (ps ! i) = Inr (ps' ! i))" by blast
  next
    assume "\<exists>ps'. s' = s\<lparr>parts := Some ps'\<rparr> \<and> length ps' = length ps \<and>
        (\<forall>i<length ps. body i (ps ! i) = Inr (ps' ! i))"
    then obtain ps' where p: "s' = s\<lparr>parts := Some ps'\<rparr>" "length ps' = length ps"
        "\<forall>i<length ps. body i (ps ! i) = Inr (ps' ! i)" by blast
    have "ps' = qs"
    proof (rule nth_equalityI)
      show "length ps' = length qs" using p(2) q(1) by simp
    next
      fix i assume "i < length ps'"
      then have "i < length ps" using p(2) by simp
      with p(3) q(2) have "Inr (ps' ! i) = (Inr (qs ! i) :: error + exam_part)" by metis
      then show "ps' ! i = qs ! i" by simp
    qed
    with p(1) f show "forEachPart body s = Inr s'" by simp
  qed
qed

lemma forEachPart_pure:
  assumes "parts s = Some ps" and "\<And>i p. body i p = Inr (g i p)"
  shows "forEachPart body s = Inr (s\<lparr>parts := Some (map (\<lambda>(i, p). g i p) (enumerate 0 ps))\<rparr>)"
  unfolding forEachPart_Some [OF assms(1)]
  by (rule exI [of _ "map (\<lambda>(i, p). g i p) (enumerate 0 ps)"]) (simp add: assms(2) nth_enumerate_eq)

section \<open>Properties of stage 1\<close>

subsection \<open>The sort\<close>

lemma mset_insertPart: "mset (insertPart x ys) = add_mset x (mset ys)"
  by (induction ys) auto

lemma mset_sortParts: "mset (sortParts ps) = mset ps"
  by (induction ps) (auto simp: sortParts_def mset_insertPart)

lemma set_sortParts: "set (sortParts ps) = set ps"
  using mset_sortParts [of ps] by (metis set_mset_mset)

lemma set_insertPart: "set (insertPart x ys) = insert x (set ys)"
  by (induction ys) auto

lemma sorted_insertPart:
  "part x \<noteq> None \<Longrightarrow> \<forall>y\<in>set ys. part y \<noteq> None \<Longrightarrow> sorted (map partNo ys)
     \<Longrightarrow> sorted (map partNo (insertPart x ys))"
  by (induction ys) (auto simp: compareParts_def partNo_def set_insertPart split: option.splits)

lemma sorted_sortParts:
  "\<forall>y\<in>set ps. part y \<noteq> None \<Longrightarrow> sorted (map partNo (sortParts ps))"
proof (induction ps)
  case Nil
  then show ?case by (simp add: sortParts_def)
next
  case (Cons p ps)
  have "sortParts (p # ps) = insertPart p (sortParts ps)" by (simp add: sortParts_def)
  with Cons show ?case by (simp add: sorted_insertPart set_sortParts)
qed

lemma sorted_map_partNo_ascending: "sorted (map partNo ps) \<Longrightarrow> ascendingByPart ps"
  unfolding ascendingByPart_def
  by (induction ps) (auto simp: partNo_def split: option.splits)

subsection \<open>The grouping loop\<close>

lemma firstWith_snoc:
  "firstWith k (ps @ [p]) =
     (case firstWith k ps of Some q \<Rightarrow> Some q | None \<Rightarrow> if part p = k then Some p else None)"
  by (induction ps) (auto simp: firstWith_def)

lemma questionsOf_snoc:
  "questionsOf k (ps @ [p]) = questionsOf k ps @ (if part p = k then questionsOrEmpty p else [])"
  by (simp add: questionsOf_def)

lemma firstWith_None_questionsOf: "firstWith k ps = None \<Longrightarrow> questionsOf k ps = []"
  by (induction ps) (auto simp: firstWith_def questionsOf_def split: if_splits)

lemma find_Some_part: "find (\<lambda>p. part p = k) ps = Some p \<Longrightarrow> part p = k \<and> p \<in> set ps"
  by (induction ps) (auto split: if_splits)

lemma mergeInv_step:
  assumes "mergeInv ps m"
  shows "mergeInv (ps @ [p]) (mergeStep m p)"
proof -
  from assms have d: "distinct (map fst m)"
    and mo: "\<And>k. map_of m k = (case firstWith k ps of None \<Rightarrow> None
                         | Some p \<Rightarrow> Some (p\<lparr>questions := Some (questionsOf k ps)\<rparr>))"
    by (auto simp: mergeInv_def)
  show ?thesis
  proof (cases "firstWith (part p) ps")
    case None
    then have mn: "map_of m (part p) = None" using mo [of "part p"] by simp
    have ms: "mergeStep m p =
        AList.update (part p) (p\<lparr>questions := Some (questionsOrEmpty p)\<rparr>) m"
      by (simp add: mergeStep_def mn)
    show ?thesis
      unfolding mergeInv_def ms
      using d None
      by (auto simp: distinct_update update_conv' mo firstWith_snoc questionsOf_snoc
          firstWith_None_questionsOf split: option.splits)
  next
    case (Some q)
    then have mn: "map_of m (part p) = Some (q\<lparr>questions := Some (questionsOf (part p) ps)\<rparr>)"
      using mo [of "part p"] by simp
    have ms: "mergeStep m p = AList.update (part p)
        (q\<lparr>questions := Some (questionsOf (part p) ps @ questionsOrEmpty p)\<rparr>) m"
      by (simp add: mergeStep_def mn questionsOrEmpty_def)
    show ?thesis
      unfolding mergeInv_def ms
      using d Some
      by (auto simp: distinct_update update_conv' mo firstWith_snoc questionsOf_snoc
          split: option.splits)
  qed
qed

lemma mergeInv_foldl: "mergeInv ps (foldl mergeStep [] ps)"
proof (induction ps rule: rev_induct)
  case Nil
  then show ?case by (simp add: mergeInv_def firstWith_def)
next
  case (snoc p ps)
  then show ?case by (simp add: mergeInv_step)
qed

lemma mergeInv_entry:
  assumes "mergeInv ps m" "(k, v) \<in> set m"
  shows "\<exists>p. firstWith k ps = Some p \<and> v = p\<lparr>questions := Some (questionsOf k ps)\<rparr> \<and> part v = k"
proof -
  from assms(1) have d: "distinct (map fst m)" unfolding mergeInv_def by blast
  have mk: "map_of m k = Some v" by (rule map_of_is_SomeI [OF d assms(2)])
  from assms(1) have "map_of m k = (case firstWith k ps of None \<Rightarrow> None
       | Some p \<Rightarrow> Some (p\<lparr>questions := Some (questionsOf k ps)\<rparr>))"
    unfolding mergeInv_def by blast
  then have c: "(case firstWith k ps of None \<Rightarrow> None
       | Some p \<Rightarrow> Some (p\<lparr>questions := Some (questionsOf k ps)\<rparr>)) = Some v"
    unfolding mk by (rule sym)
  then obtain p where p: "firstWith k ps = Some p" "v = p\<lparr>questions := Some (questionsOf k ps)\<rparr>"
    by (cases "firstWith k ps") auto
  from p(1) have "part p = k" unfolding firstWith_def by (rule find_Some_part [THEN conjunct1])
  then have "part v = k" unfolding p(2) by simp
  with p show ?thesis by blast
qed

lemma mergeInv_keys:
  assumes "mergeInv ps m"
  shows "map part (map snd m) = map fst m"
proof -
  have "\<forall>x\<in>set m. part (snd x) = fst x"
  proof
    fix x assume "x \<in> set m"
    then have "(fst x, snd x) \<in> set m" by simp
    from mergeInv_entry [OF assms this] show "part (snd x) = fst x" by auto
  qed
  then show ?thesis by simp
qed

lemma merged_entry:
  assumes "v \<in> set (mergeDuplicateParts ps)"
  shows "\<exists>p. firstWith (part v) ps = Some p \<and> v = p\<lparr>questions := Some (questionsOf (part v) ps)\<rparr>"
proof -
  from assms obtain k where "(k, v) \<in> set (foldl mergeStep [] ps)"
    by (auto simp: mergeDuplicateParts_def set_sortParts)
  from mergeInv_entry [OF mergeInv_foldl this] show ?thesis by auto
qed

lemma merged_distinct: "distinct (map part (mergeDuplicateParts ps))"
proof -
  let ?m = "foldl mergeStep [] ps"
  have "distinct (map part (map snd ?m))"
    using mergeInv_foldl [of ps]
    by (simp only: mergeInv_keys [OF mergeInv_foldl]) (simp add: mergeInv_def)
  moreover have "mset (map part (sortParts xs)) = mset (map part xs)"
    for xs :: "'a exam_part_scheme list"
    by (simp add: mset_sortParts)
  then have "mset (map part (mergeDuplicateParts ps)) = mset (map part (map snd ?m))"
    unfolding mergeDuplicateParts_def by blast
  ultimately show ?thesis by (metis mset_eq_imp_distinct_iff)
qed

lemma merged_numbers: "set (map part (mergeDuplicateParts ps)) = set (map part ps)"
proof -
  let ?m = "foldl mergeStep [] ps"
  have inv: "mergeInv ps ?m" by (rule mergeInv_foldl)
  have "set (map part (map snd ?m)) = set (map fst ?m)"
    by (simp only: mergeInv_keys [OF inv])
  then have 1: "part ` set (mergeDuplicateParts ps) = fst ` set ?m"
    by (simp add: mergeDuplicateParts_def set_sortParts image_image)
  have 2: "fst ` set ?m \<subseteq> part ` set ps"
  proof
    fix k assume "k \<in> fst ` set ?m"
    then obtain v where "(k, v) \<in> set ?m" by auto
    from mergeInv_entry [OF inv this] obtain p where "firstWith k ps = Some p" by blast
    then have "part p = k \<and> p \<in> set ps" unfolding firstWith_def by (rule find_Some_part)
    then show "k \<in> part ` set ps" by blast
  qed
  have 3: "part ` set ps \<subseteq> fst ` set ?m"
  proof
    fix k assume "k \<in> part ` set ps"
    then have "firstWith k ps \<noteq> None" unfolding firstWith_def find_None_iff by blast
    then obtain p where p: "firstWith k ps = Some p" by blast
    from inv have "map_of ?m k = (case firstWith k ps of None \<Rightarrow> None
       | Some p \<Rightarrow> Some (p\<lparr>questions := Some (questionsOf k ps)\<rparr>))"
      unfolding mergeInv_def by blast
    then have "map_of ?m k \<noteq> None" unfolding p by simp
    then show "k \<in> fst ` set ?m" unfolding map_of_eq_None_iff by simp
  qed
  from 1 2 3 show ?thesis by simp
qed

lemma merged_sorted:
  assumes "\<forall>p\<in>set ps. part p \<noteq> None"
  shows "sorted (map partNo (mergeDuplicateParts ps))"
proof -
  have "\<forall>y\<in>set (map snd (foldl mergeStep [] ps)). part y \<noteq> None"
  proof
    fix y assume "y \<in> set (map snd (foldl mergeStep [] ps))"
    then have "y \<in> set (mergeDuplicateParts ps)"
      by (simp add: mergeDuplicateParts_def set_sortParts)
    then have "part y \<in> set (map part (mergeDuplicateParts ps))" by simp
    then have "part y \<in> part ` set ps" by (simp only: merged_numbers) simp
    with assms show "part y \<noteq> None" by auto
  qed
  then show ?thesis unfolding mergeDuplicateParts_def by (rule sorted_sortParts)
qed

lemma merge_twoParts2: "mergeDuplicateParts twoParts2 = [mergedPart2]"
  by (simp add: mergeDuplicateParts_def mergeStep_def sortParts_def questionsOrEmpty_def
      mkPart_def twoParts2_def mergedPart2_def)

text \<open>
  Claim C5, as the code has it. For every input sequence, no two output parts share a
  part number, the output carries exactly the part numbers of the input, and the part
  with number \<open>n\<close> carries the questions of all input parts numbered \<open>n\<close>, concatenated in
  encounter order. When every input part has a part number, the output is ascending by
  part number. (Two parts numbered 2 with questions \<open>[A, B]\<close> and \<open>[C]\<close> give the single
  part \<open>mergedPart2\<close>: lemma \<open>merge_twoParts2\<close>.)
\<close>

theorem mergeDuplicateParts_merge_correct:
  "distinct (map part (mergeDuplicateParts ps)) \<and>
   set (map part (mergeDuplicateParts ps)) = set (map part ps) \<and>
   (\<forall>v\<in>set (mergeDuplicateParts ps). questions v = Some (questionsOf (part v) ps)) \<and>
   ((\<forall>p\<in>set ps. part p \<noteq> None) \<longrightarrow> ascendingByPart (mergeDuplicateParts ps))"
proof (intro conjI ballI impI)
  show "distinct (map part (mergeDuplicateParts ps))" by (rule merged_distinct)
  show "set (map part (mergeDuplicateParts ps)) = set (map part ps)" by (rule merged_numbers)
next
  fix v assume "v \<in> set (mergeDuplicateParts ps)"
  from merged_entry [OF this] obtain p
    where "v = p\<lparr>questions := Some (questionsOf (part v) ps)\<rparr>" by blast
  then have "questions v = questions (p\<lparr>questions := Some (questionsOf (part v) ps)\<rparr>)"
    by simp
  then show "questions v = Some (questionsOf (part v) ps)" by simp
next
  assume "\<forall>p\<in>set ps. part p \<noteq> None"
  then show "ascendingByPart (mergeDuplicateParts ps)"
    by (intro sorted_map_partNo_ascending merged_sorted)
qed

theorem mergeDuplicateParts_merge_correct_witness:
  "map part twoParts2 = [Some 2, Some 2] \<and>
   mergeDuplicateParts twoParts2 = [mergedPart2] \<and>
   mergedPart2 \<in> set (mergeDuplicateParts twoParts2) \<and>
   distinct (map part (mergeDuplicateParts twoParts2)) \<and>
   questions mergedPart2 = Some (questionsOf (part mergedPart2) twoParts2) \<and>
   questionsOf (Some 2) twoParts2 = [mkQuestion (js ''A''), mkQuestion (js ''B''), mkQuestion (js ''C'')] \<and>
   ascendingByPart (mergeDuplicateParts twoParts2)"
proof -
  have h: "\<forall>p\<in>set twoParts2. part p \<noteq> None" by (simp add: twoParts2_def mkPart_def)
  have m: "mergedPart2 \<in> set (mergeDuplicateParts twoParts2)" by (simp add: merge_twoParts2)
  have q: "questionsOf (Some 2) twoParts2 =
      [mkQuestion (js ''A''), mkQuestion (js ''B''), mkQuestion (js ''C'')]"
    by (simp add: questionsOf_def questionsOrEmpty_def twoParts2_def mkPart_def)
  have n: "map part twoParts2 = [Some 2, Some 2]" by (simp add: twoParts2_def mkPart_def)
  from h m q n merge_twoParts2 mergeDuplicateParts_merge_correct [of twoParts2]
  show ?thesis by blast
qed

text \<open>
  Claim C5 as stated fails where a part has no part number: the comparator then yields
  \<open>NaN\<close>, and the part numbered 2 stays in front of the part numbered 1.
\<close>

theorem mergeDuplicateParts_unnumbered_counterexample:
  "map part (mergeDuplicateParts unnumberedParts) = [Some 2, None, Some 1] \<and>
   \<not> ascendingByPart (mergeDuplicateParts unnumberedParts)"
  by (simp add: mergeDuplicateParts_def mergeStep_def sortParts_def questionsOrEmpty_def
      mkPart_def compareParts_def ascendingByPart_def unnumberedParts_def)

text \<open>
  Claim C10. Every part of the merged sequence is the first input part with its number,
  with only the questions replaced (by the questions of all parts with that number): its
  instructions, its questions range and every other field it carries are those of the
  first-encountered part, and nothing but questions comes from a later duplicate.
\<close>

theorem mergeDuplicateParts_first_metadata:
  "\<forall>v\<in>set (mergeDuplicateParts ps). \<exists>p.
      firstWith (part v) ps = Some p \<and>
      v = p\<lparr>questions := Some (questionsOf (part v) ps)\<rparr> \<and>
      instructions v = instructions p \<and> questionsRange v = questionsRange p \<and>
      exam_part.more v = exam_part.more p"
proof
  fix v assume "v \<in> set (mergeDuplicateParts ps)"
  from merged_entry [OF this] obtain p
    where p: "firstWith (part v) ps = Some p"
      and v: "v = p\<lparr>questions := Some (questionsOf (part v) ps)\<rparr>" by blast
  have "instructions (p\<lparr>questions := Some (questionsOf (part v) ps)\<rparr>) = instructions p"
    "questionsRange (p\<lparr>questions := Some (questionsOf (part v) ps)\<rparr>) = questionsRange p"
    "exam_part.more (p\<lparr>questions := Some (questionsOf (part v) ps)\<rparr>) = exam_part.more p"
    by simp_all
  then have "instructions v = instructions p \<and> questionsRange v = questionsRange p \<and>
      exam_part.more v = exam_part.more p"
    unfolding v [symmetric] by simp
  with p v show "\<exists>p. firstWith (part v) ps = Some p \<and>
      v = p\<lparr>questions := Some (questionsOf (part v) ps)\<rparr> \<and>
      instructions v = instructions p \<and> questionsRange v = questionsRange p \<and>
      exam_part.more v = exam_part.more p" by blast
qed

theorem mergeDuplicateParts_first_metadata_witness:
  "mergedPart2 \<in> set (mergeDuplicateParts twoParts2) \<and>
   firstWith (part mergedPart2) twoParts2 = Some (twoParts2 ! 0) \<and>
   instructions (twoParts2 ! 0) = Some (js ''first'') \<and>
   (\<exists>p. firstWith (part mergedPart2) twoParts2 = Some p \<and>
        instructions mergedPart2 = instructions p \<and>
        exam_part.more mergedPart2 = exam_part.more p)"
proof -
  have m: "mergedPart2 \<in> set (mergeDuplicateParts twoParts2)" by (simp add: merge_twoParts2)
  have f: "firstWith (part mergedPart2) twoParts2 = Some (twoParts2 ! 0)"
    by (simp add: firstWith_def twoParts2_def mergedPart2_def mkPart_def)
  have i: "instructions (twoParts2 ! 0) = Some (js ''first'')"
    by (simp add: twoParts2_def mkPart_def)
  from mergeDuplicateParts_first_metadata [of twoParts2] m
  have "\<exists>p. firstWith (part mergedPart2) twoParts2 = Some p \<and>
        instructions mergedPart2 = instructions p \<and>
        exam_part.more mergedPart2 = exam_part.more p" by blast
  with m f i show ?thesis by blast
qed

section \<open>Properties of stage 2\<close>





















lemma fixPart_questions: "\<exists>y. questions (fixPart t i p) = Some y"
  by (simp add: fixPart_def Let_def)







section \<open>Generated question identifiers\<close>

lemmas doc_defs = readingDoc_def readingDocNumbered_def mkPart_def emptyQuestion_def
  questionsOrEmpty_def questionIds_def

lemmas stage_defs = forEachPart_def enumerate_eq_zip Let_def truthyStr_def truthyNum_def
  tmplStr_def tmplInt_def showInt_def showNat.simps orStr_def js_def
  validateAndFixStructure_def fixPart_def partNumber_def
  fixQuestion_def fixAnswer_def fixIsInteractive_def fixAnswerConstraints_def
  fixInputType_def fixType_def fixNumber_def fixQuestionId_def andThen_def
  injectImageObjects_def processBase64Images_def processImageQuestion_def
  linkMatchingQuestions_def linkPart_def linkQuestion_def partDraggableVariants_def
  findDivider_def standardizeQuestionIds_def standardizeQuestion_def replaceDashes_def
  dashClass_def enforceQuestionNumbering_def numberQuestion_def autoDetectQuestionType_def
  toLowerCase_def jsAdd_def jsSub_def jsMul_def roundDouble_exact

lemma mergeStage_readingDoc:
  "mergeStage readingDoc = readingDoc\<lparr>test := None, sectionName := None\<rparr>"
  "mergeStage readingDocNumbered = readingDocNumbered\<lparr>test := None, sectionName := None\<rparr>"
  by (simp_all add: mergeStage_def readingDoc_def readingDocNumbered_def mergeDuplicateParts_def
      mergeStep_def sortParts_def questionsOrEmpty_def mkPart_def)

text \<open>
  Claim C6 at a reading document. Stage 2 gives the question without an identifier the
  identifier \<open>listening-1-1-1\<close>, and stage 7 rewrites the identifier \<open>reading-1-1-7\<close> to
  \<open>listening-1-1-1\<close>: the first segment is the fixed word, not the section of the
  document. The pipeline of the reading endpoint returns the same identifiers for both
  documents (and, having rebuilt the document from its merged parts in step 1, returns
  it with the default section).
\<close>

theorem generated_questionId_prefix:
  "sectionName readingDoc = Some (js ''Reading'') \<and>
   questionIds readingDoc = [[None]] \<and>
   questionIds (validateAndFixStructure readingDoc) = [[Some (js ''listening-1-1-1'')]] \<and>
   sectionName readingDocNumbered = Some (js ''Reading'') \<and>
   questionIds readingDocNumbered = [[Some (js ''reading-1-1-7'')]] \<and>
   map_sum id questionIds (enforceQuestionNumbering readingDocNumbered)
     = Inr [[Some (js ''listening-1-1-1'')]] \<and>
   map_sum id questionIds (postProcess (\<lambda>f. True) (\<lambda>p q. 0) [] readingDoc)
     = Inr [[Some (js ''listening-1-1-1'')]] \<and>
   map_sum id questionIds (postProcess (\<lambda>f. True) (\<lambda>p q. 0) [] readingDocNumbered)
     = Inr [[Some (js ''listening-1-1-1'')]] \<and>
   map_sum id sectionName (postProcess (\<lambda>f. True) (\<lambda>p q. 0) [] readingDoc)
     = Inr (Some (js ''Listening''))"
proof -
  have 1: "sectionName readingDoc = Some (js ''Reading'')"
    "questionIds readingDoc = [[None]]"
    "sectionName readingDocNumbered = Some (js ''Reading'')"
    "questionIds readingDocNumbered = [[Some (js ''reading-1-1-7'')]]"
    by (simp_all add: doc_defs)
  have 2: "questionIds (validateAndFixStructure readingDoc) = [[Some (js ''listening-1-1-1'')]]"
    by (simp add: doc_defs stage_defs)
  have 3: "map_sum id questionIds (enforceQuestionNumbering readingDocNumbered)
     = Inr [[Some (js ''listening-1-1-1'')]]"
    by (simp add: doc_defs stage_defs)
  have 4: "map_sum id questionIds (postProcess (\<lambda>f. True) (\<lambda>p q. 0) [] readingDoc)
     = Inr [[Some (js ''listening-1-1-1'')]]"
    unfolding postProcess_def mergeStage_readingDoc by (simp add: doc_defs stage_defs)
  have 5: "map_sum id questionIds (postProcess (\<lambda>f. True) (\<lambda>p q. 0) [] readingDocNumbered)
     = Inr [[Some (js ''listening-1-1-1'')]]"
    unfolding postProcess_def mergeStage_readingDoc by (simp add: doc_defs stage_defs)
  have 6: "map_sum id sectionName (postProcess (\<lambda>f. True) (\<lambda>p q. 0) [] readingDoc)
     = Inr (Some (js ''Listening''))"
    unfolding postProcess_def mergeStage_readingDoc by (simp add: doc_defs stage_defs)
  from 1 2 3 4 5 6 show ?thesis by (intro conjI)
qed

section \<open>Properties of stages 3 to 8\<close>

subsection \<open>The arrays stay present\<close>

lemma wellFormed_iff:
  "wellFormed s \<longleftrightarrow> (\<exists>ps. parts s = Some ps \<and> (\<forall>i<length ps. questions (ps ! i) \<noteq> None))"
  by (auto simp: wellFormed_def list_all_length split: option.splits)

lemma sequence_all:
  "\<forall>x\<in>set xs. \<exists>y. x = Inr y \<and> P y \<Longrightarrow> \<exists>ys. sequence xs = Inr ys \<and> list_all P ys"
proof (induction xs)
  case Nil
  then show ?case by simp
next
  case (Cons x xs)
  then obtain y where y: "x = Inr y" "P y" by auto
  from Cons obtain ys where ys: "sequence xs = Inr ys" "list_all P ys" by auto
  from y ys show ?case by simp
qed

lemma forEachPart_wellFormed:
  assumes "wellFormed s"
    and "\<And>i p. questions p \<noteq> None \<Longrightarrow> \<exists>p'. body i p = Inr p' \<and> questions p' \<noteq> None"
  shows "\<exists>s'. forEachPart body s = Inr s' \<and> wellFormed s'"
proof -
  from assms(1) obtain ps where ps: "parts s = Some ps" "list_all (\<lambda>p. questions p \<noteq> None) ps"
    by (auto simp: wellFormed_def split: option.splits)
  have "\<forall>x\<in>set (map (\<lambda>(i, p). body i p) (enumerate 0 ps)).
          \<exists>y. x = Inr y \<and> questions y \<noteq> None"
  proof
    fix x assume "x \<in> set (map (\<lambda>(i, p). body i p) (enumerate 0 ps))"
    then obtain i p where "(i, p) \<in> set (enumerate 0 ps)" "x = body i p" by auto
    then have "p \<in> set ps" "x = body i p" by (auto simp: in_set_enumerate_eq)
    with ps(2) have "questions p \<noteq> None" by (simp add: list_all_iff)
    from assms(2) [OF this, of i] \<open>x = body i p\<close> show "\<exists>y. x = Inr y \<and> questions y \<noteq> None"
      by simp
  qed
  from sequence_all [OF this] obtain ps'
    where "sequence (map (\<lambda>(i, p). body i p) (enumerate 0 ps)) = Inr ps'"
      "list_all (\<lambda>p. questions p \<noteq> None) ps'" by blast
  then have "forEachPart body s = Inr (s\<lparr>parts := Some ps'\<rparr>)" "wellFormed (s\<lparr>parts := Some ps'\<rparr>)"
    by (simp_all add: forEachPart_def ps(1) wellFormed_def)
  then show ?thesis by blast
qed

lemma validateAndFixStructure_wellFormed: "wellFormed (validateAndFixStructure s)"
  by (simp add: validateAndFixStructure_def wellFormed_def Let_def list_all_iff fixPart_questions
      split: prod.splits)

lemma injectImageObjects_wellFormed:
  "wellFormed s \<Longrightarrow> \<exists>s'. injectImageObjects s imgs = Inr s' \<and> wellFormed s'"
  unfolding injectImageObjects_def
  by (cases "imgs = []") (auto intro!: forEachPart_wellFormed)

lemma processBase64Images_wellFormed:
  "wellFormed s \<Longrightarrow> \<exists>s'. processBase64Images w n s = Inr s' \<and> wellFormed s'"
  unfolding processBase64Images_def
  by (rule forEachPart_wellFormed) auto

lemma linkMatchingQuestions_wellFormed:
  "wellFormed s \<Longrightarrow> \<exists>s'. linkMatchingQuestions s = Inr s' \<and> wellFormed s'"
  unfolding linkMatchingQuestions_def
  by (rule forEachPart_wellFormed) (auto simp: linkPart_def)

lemma standardizeQuestionIds_wellFormed:
  "wellFormed s \<Longrightarrow> \<exists>s'. standardizeQuestionIds s = Inr s' \<and> wellFormed s'"
  unfolding standardizeQuestionIds_def
  by (rule forEachPart_wellFormed) auto

lemma enforceQuestionNumbering_wellFormed:
  "wellFormed s \<Longrightarrow> \<exists>s'. enforceQuestionNumbering s = Inr s' \<and> wellFormed s'"
  unfolding enforceQuestionNumbering_def
  by (rule forEachPart_wellFormed) auto

lemma partErrors_total: "questions p \<noteq> None \<Longrightarrow> \<exists>es. partErrors i p = Inr es"
  by (auto simp: partErrors_def Let_def)

lemma validateRequiredFields_total:
  assumes "wellFormed s"
  shows "\<exists>v. validateRequiredFields s = Inr v \<and> (valid v \<longleftrightarrow> errors v = [])"
proof -
  from assms obtain ps where ps: "parts s = Some ps" "list_all (\<lambda>p. questions p \<noteq> None) ps"
    by (auto simp: wellFormed_def split: option.splits)
  have "\<forall>x\<in>set (map (\<lambda>(i, p). partErrors i p) (enumerate 0 ps)). \<exists>y. x = Inr y \<and> True"
  proof
    fix x assume "x \<in> set (map (\<lambda>(i, p). partErrors i p) (enumerate 0 ps))"
    then obtain i p where "(i, p) \<in> set (enumerate 0 ps)" "x = partErrors i p" by auto
    then have "p \<in> set ps" "x = partErrors i p" by (auto simp: in_set_enumerate_eq)
    with ps(2) have "questions p \<noteq> None" by (simp add: list_all_iff)
    from partErrors_total [OF this, of i] \<open>x = partErrors i p\<close> show "\<exists>y. x = Inr y \<and> True"
      by simp
  qed
  from sequence_all [OF this] obtain es
    where "sequence (map (\<lambda>(i, p). partErrors i p) (enumerate 0 ps)) = Inr es" by blast
  then show ?thesis by (simp add: validateRequiredFields_def ps(1) Let_def)
qed

lemma questionErrors_Nil: "questionErrors k i q = [] \<longleftrightarrow> questionComplete q"
  by (auto simp: questionErrors_def questionComplete_def Let_def)

lemma questionErrors_all:
  "concat (map (\<lambda>(i, q). questionErrors k i q) (enumerate 0 qs)) = []
     \<longleftrightarrow> list_all questionComplete qs"
proof -
  have "concat (map (\<lambda>(i, q). questionErrors k i q) (enumerate 0 qs)) = []
      \<longleftrightarrow> (\<forall>x\<in>set (enumerate 0 qs). questionErrors k (fst x) (snd x) = [])"
    by (auto simp: case_prod_beta)
  also have "\<dots> \<longleftrightarrow> (\<forall>i<length qs. questionErrors k i (qs ! i) = [])"
  proof
    assume a: "\<forall>x\<in>set (enumerate 0 qs). questionErrors k (fst x) (snd x) = []"
    show "\<forall>i<length qs. questionErrors k i (qs ! i) = []"
    proof (intro allI impI)
      fix i assume "i < length qs"
      then have "(i, qs ! i) \<in> set (enumerate 0 qs)" by (simp add: in_set_enumerate_eq)
      with a show "questionErrors k i (qs ! i) = []" by fastforce
    qed
  next
    assume "\<forall>i<length qs. questionErrors k i (qs ! i) = []"
    then show "\<forall>x\<in>set (enumerate 0 qs). questionErrors k (fst x) (snd x) = []"
      by (auto simp: in_set_enumerate_eq)
  qed
  also have "\<dots> \<longleftrightarrow> (\<forall>i<length qs. questionComplete (qs ! i))"
    by (simp only: questionErrors_Nil)
  also have "\<dots> \<longleftrightarrow> list_all questionComplete qs"
    by (simp add: list_all_length)
  finally show ?thesis .
qed

lemma partErrors_Nil:
  assumes "questions p = Some qs"
  shows "\<exists>es. partErrors k p = Inr es \<and> (es = [] \<longleftrightarrow> partComplete p)"
proof -
  let ?own = "(if \<not> truthyNum (part p)
                 then [js ''Part '' @ showInt (int k) @ js '': Missing part number''] else [])
          @ (if \<not> truthyStr (instructions p)
                 then [js ''Part '' @ showInt (int k) @ js '': Missing instructions''] else [])
          @ (if \<not> truthyStr (questionsRange p)
                 then [js ''Part '' @ showInt (int k) @ js '': Missing questionsRange''] else [])"
  let ?qe = "concat (map (\<lambda>(i, q). questionErrors k i q) (enumerate 0 qs))"
  have e: "partErrors k p = Inr (?own @ ?qe)"
    by (simp add: partErrors_def Let_def assms)
  have o: "?own = [] \<longleftrightarrow>
      truthyNum (part p) \<and> truthyStr (instructions p) \<and> truthyStr (questionsRange p)"
    by simp
  have "?own @ ?qe = [] \<longleftrightarrow> partComplete p"
    unfolding append_is_Nil_conv o questionErrors_all
    by (simp add: partComplete_def assms)
  with e show ?thesis by blast
qed

lemma validateRequiredFields_complete:
  assumes "wellFormed s"
  shows "\<exists>v. validateRequiredFields s = Inr v \<and> (valid v \<longleftrightarrow> errors v = []) \<and>
           (valid v \<longleftrightarrow> documentComplete s)"
proof -
  from assms obtain ps where ps: "parts s = Some ps" "list_all (\<lambda>p. questions p \<noteq> None) ps"
    by (auto simp: wellFormed_def split: option.splits)
  have each: "\<exists>es. partErrors i (ps ! i) = Inr es \<and> (es = [] \<longleftrightarrow> partComplete (ps ! i))"
    if "i < length ps" for i
  proof -
    from that ps(2) obtain qs where "questions (ps ! i) = Some qs"
      by (auto simp: list_all_length)
    then show ?thesis by (rule partErrors_Nil)
  qed
  define ess where "ess = map (\<lambda>i. projr (partErrors i (ps ! i))) [0..<length ps]"
  have l: "length ess = length ps" by (simp add: ess_def)
  have n: "partErrors i (ps ! i) = Inr (ess ! i) \<and> (ess ! i = [] \<longleftrightarrow> partComplete (ps ! i))"
    if "i < length ps" for i
    using each [OF that] that by (auto simp: ess_def)
  from l n have sq: "sequence (map (\<lambda>(i, p). partErrors i p) (enumerate 0 ps)) = Inr ess"
    by (simp add: sequence_enumerate)
  have c: "concat ess = [] \<longleftrightarrow> list_all partComplete ps"
  proof -
    have "concat ess = [] \<longleftrightarrow> (\<forall>i<length ess. ess ! i = [])"
      by (simp add: all_set_conv_all_nth)
    also have "\<dots> \<longleftrightarrow> (\<forall>i<length ps. partComplete (ps ! i))"
      using l n by auto
    also have "\<dots> \<longleftrightarrow> list_all partComplete ps" by (simp add: list_all_length)
    finally show ?thesis .
  qed
  let ?top = "(if \<not> truthyStr (test s) then [js ''Missing test number''] else [])
          @ (if \<not> truthyStr (sectionName s) then [js ''Missing section name''] else [])"
  let ?v = "\<lparr>valid = (length (?top @ concat ess) = 0), errors = ?top @ concat ess\<rparr>"
  have v: "validateRequiredFields s = Inr ?v"
    by (simp add: validateRequiredFields_def ps(1) sq Let_def)
  have t: "?top = [] \<longleftrightarrow> truthyStr (test s) \<and> truthyStr (sectionName s)" by simp
  have d: "?top @ concat ess = [] \<longleftrightarrow> documentComplete s"
    unfolding append_is_Nil_conv t c by (simp add: documentComplete_def ps(1))
  have "valid ?v \<longleftrightarrow> errors ?v = []" by simp
  moreover from d have "valid ?v \<longleftrightarrow> documentComplete s" by simp
  ultimately show ?thesis using v by blast
qed

lemma mergeStage_wellFormed: "wellFormed (mergeStage s)"
proof -
  have "questions v \<noteq> None" if "v \<in> set (mergeDuplicateParts ps)" for v and ps :: "exam_part list"
  proof -
    from merged_entry [OF that] obtain p
      where "v = p\<lparr>questions := Some (questionsOf (part v) ps)\<rparr>" by blast
    then have "questions v = questions (p\<lparr>questions := Some (questionsOf (part v) ps)\<rparr>)"
      by simp
    then show ?thesis by simp
  qed
  then show ?thesis by (simp add: wellFormed_def mergeStage_def list_all_iff)
qed

lemma postProcess_total:
  "\<exists>s'. postProcess w n imgs s = Inr s' \<and> wellFormed s'"
proof -
  have w2: "wellFormed (validateAndFixStructure (mergeStage s))"
    by (rule validateAndFixStructure_wellFormed)
  from injectImageObjects_wellFormed [OF w2] obtain s3
    where s3: "injectImageObjects (validateAndFixStructure (mergeStage s)) imgs = Inr s3" "wellFormed s3"
    by blast
  from processBase64Images_wellFormed [OF s3(2)] obtain s4
    where s4: "processBase64Images w n s3 = Inr s4" "wellFormed s4" by blast
  from linkMatchingQuestions_wellFormed [OF s4(2)] obtain s5
    where s5: "linkMatchingQuestions s4 = Inr s5" "wellFormed s5" by blast
  from standardizeQuestionIds_wellFormed [OF s5(2)] obtain s6
    where s6: "standardizeQuestionIds s5 = Inr s6" "wellFormed s6" by blast
  from enforceQuestionNumbering_wellFormed [OF s6(2)] obtain s7
    where s7: "enforceQuestionNumbering s6 = Inr s7" "wellFormed s7" by blast
  have "postProcess w n imgs s = Inr s7"
    by (simp add: postProcess_def andThen_def s3(1) s4(1) s5(1) s6(1) s7(1))
  with s7(2) show ?thesis by blast
qed

subsection \<open>Numbering\<close>

lemma numberQuestion_type: "type (numberQuestion t n p i q) = type q"
  by (simp add: numberQuestion_def Let_def)

lemma numberQuestion_number:
  "type q \<noteq> Some (js ''divider'') \<Longrightarrow> type q \<noteq> Some (js ''image'') \<Longrightarrow>
     number (numberQuestion t n p i q) = Some (10 * int p + int i + 1)"
  by (simp add: numberQuestion_def Let_def)

lemma enforce_result:
  assumes "enforceQuestionNumbering s = Inr s'"
  shows "\<exists>ps ps'. parts s = Some ps \<and> parts s' = Some ps' \<and> length ps' = length ps \<and>
        (\<forall>p<length ps. \<exists>qs qs'. questions (ps ! p) = Some qs \<and> questions (ps' ! p) = Some qs' \<and>
           length qs' = length qs \<and>
           (\<forall>i<length qs. type (qs' ! i) = type (qs ! i) \<and>
              (type (qs' ! i) \<noteq> Some (js ''divider'') \<and> type (qs' ! i) \<noteq> Some (js ''image'') \<longrightarrow>
                 number (qs' ! i) = Some (10 * int p + int i + 1))))"
proof -
  from assms obtain ps where ps: "parts s = Some ps"
    by (cases "parts s") (auto simp: enforceQuestionNumbering_def forEachPart_None)
  from assms obtain ps' where ps': "s' = s\<lparr>parts := Some ps'\<rparr>" "length ps' = length ps"
    and body: "\<forall>i<length ps. (case questions (ps ! i) of None \<Rightarrow> Inl TypeError
           | Some qs \<Rightarrow> Inr ((ps ! i)\<lparr>questions :=
                 Some (map (\<lambda>(questionIndex, q).
                         numberQuestion (test s) (part (ps ! i)) i questionIndex q)
                       (enumerate 0 qs))\<rparr>)) = Inr (ps' ! i)"
    unfolding enforceQuestionNumbering_def forEachPart_Some [OF ps] by blast
  have "\<exists>qs qs'. questions (ps ! p) = Some qs \<and> questions (ps' ! p) = Some qs' \<and>
           length qs' = length qs \<and>
           (\<forall>i<length qs. type (qs' ! i) = type (qs ! i) \<and>
              (type (qs' ! i) \<noteq> Some (js ''divider'') \<and> type (qs' ! i) \<noteq> Some (js ''image'') \<longrightarrow>
                 number (qs' ! i) = Some (10 * int p + int i + 1)))" if p: "p < length ps" for p
  proof -
    from body p obtain qs where qs: "questions (ps ! p) = Some qs"
      and r: "ps' ! p = (ps ! p)\<lparr>questions :=
                 Some (map (\<lambda>(questionIndex, q).
                         numberQuestion (test s) (part (ps ! p)) p questionIndex q)
                       (enumerate 0 qs))\<rparr>"
      by (cases "questions (ps ! p)") (auto dest!: spec [of _ p])
    let ?qs' = "map (\<lambda>(questionIndex, q).
                         numberQuestion (test s) (part (ps ! p)) p questionIndex q)
                       (enumerate 0 qs)"
    have q': "questions (ps' ! p) = Some ?qs'" unfolding r by simp
    have "length ?qs' = length qs" by simp
    moreover have "\<forall>i<length qs. type (?qs' ! i) = type (qs ! i) \<and>
              (type (?qs' ! i) \<noteq> Some (js ''divider'') \<and> type (?qs' ! i) \<noteq> Some (js ''image'') \<longrightarrow>
                 number (?qs' ! i) = Some (10 * int p + int i + 1))"
      by (simp add: nth_enumerate_eq numberQuestion_type numberQuestion_number)
    ultimately show ?thesis using qs q' by blast
  qed
  moreover have "parts s' = Some ps'" unfolding ps'(1) by simp
  ultimately show ?thesis using ps ps'(2) by blast
qed

lemma enforce_sameShape_numbered:
  assumes "enforceQuestionNumbering s = Inr s'"
  shows "sameShape s s' \<and> numberingInvariant s'"
proof -
  from enforce_result [OF assms] obtain ps ps'
    where ps: "parts s = Some ps" "parts s' = Some ps'" "length ps' = length ps"
      and q: "\<forall>p<length ps. \<exists>qs qs'. questions (ps ! p) = Some qs \<and> questions (ps' ! p) = Some qs' \<and>
           length qs' = length qs \<and>
           (\<forall>i<length qs. type (qs' ! i) = type (qs ! i) \<and>
              (type (qs' ! i) \<noteq> Some (js ''divider'') \<and> type (qs' ! i) \<noteq> Some (js ''image'') \<longrightarrow>
                 number (qs' ! i) = Some (10 * int p + int i + 1)))"
    by blast
  have a: "\<exists>qs qs'. questions (ps ! p) = Some qs \<and> questions (ps' ! p) = Some qs' \<and>
           map type qs' = map type qs" if "p < length ps" for p
  proof -
    from q that obtain qs qs' where r: "questions (ps ! p) = Some qs" "questions (ps' ! p) = Some qs'"
      "length qs' = length qs" "\<forall>i<length qs. type (qs' ! i) = type (qs ! i)" by blast
    from r(3,4) have "map type qs' = map type qs" by (simp add: list_eq_iff_nth_eq)
    with r(1,2) show ?thesis by blast
  qed
  have b: "\<exists>qs. questions (ps' ! p) = Some qs \<and>
           (\<forall>i<length qs.
              type (qs ! i) \<noteq> Some (js ''divider'') \<and> type (qs ! i) \<noteq> Some (js ''image'')
                \<longrightarrow> number (qs ! i) = Some (10 * int p + int i + 1))" if "p < length ps'" for p
  proof -
    from that ps(3) have pl: "p < length ps" by simp
    from q [rule_format, OF pl] have "\<exists>qs qs'. questions (ps ! p) = Some qs \<and> questions (ps' ! p) = Some qs' \<and>
           length qs' = length qs \<and>
           (\<forall>i<length qs. type (qs' ! i) = type (qs ! i) \<and>
              (type (qs' ! i) \<noteq> Some (js ''divider'') \<and> type (qs' ! i) \<noteq> Some (js ''image'') \<longrightarrow>
                 number (qs' ! i) = Some (10 * int p + int i + 1)))" .
    then obtain qs qs' where r: "questions (ps' ! p) = Some qs'" "length qs' = length qs"
      and r0: "questions (ps ! p) = Some qs"
      and n: "\<forall>i<length qs. type (qs' ! i) = type (qs ! i) \<and>
              (type (qs' ! i) \<noteq> Some (js ''divider'') \<and> type (qs' ! i) \<noteq> Some (js ''image'') \<longrightarrow>
                 number (qs' ! i) = Some (10 * int p + int i + 1))" by blast
    from n r(2) have "\<forall>i<length qs'.
              type (qs' ! i) \<noteq> Some (js ''divider'') \<and> type (qs' ! i) \<noteq> Some (js ''image'')
                \<longrightarrow> number (qs' ! i) = Some (10 * int p + int i + 1)" by simp
    with r(1) show ?thesis by blast
  qed
  from ps a have "sameShape s s'" unfolding sameShape_def by blast
  moreover from ps(2) b have "numberingInvariant s'" unfolding numberingInvariant_def by blast
  ultimately show ?thesis ..
qed

lemma postProcess_numbered: "\<exists>out. postProcess w n imgs raw = Inr out \<and> numberingInvariant out"
proof -
  from postProcess_total [of w n imgs raw] obtain out where o: "postProcess w n imgs raw = Inr out"
    by blast
  then obtain s6 where "enforceQuestionNumbering s6 = Inr out"
    by (auto simp: postProcess_def andThen_def split: sum.splits)
  from enforce_sameShape_numbered [OF this] o show ?thesis by blast
qed

text \<open>
  Claim C1. Whenever stage 7 returns, the document has the parts and the question types
  it had, and the question at position \<open>i\<close> of the part at index \<open>p\<close> has number
  \<open>10 * p + i + 1\<close> unless it is a divider or an image, whatever number it had. Stage 7
  returns on every document whose arrays are present, and the pipeline of the endpoints
  reaches and passes it on every input: its output satisfies the invariant.
\<close>

theorem enforceQuestionNumbering_numbers:
  "(wellFormed s \<longrightarrow> (\<exists>s'. enforceQuestionNumbering s = Inr s')) \<and>
   (\<forall>s'. enforceQuestionNumbering s = Inr s' \<longrightarrow> sameShape s s' \<and> numberingInvariant s') \<and>
   (\<exists>out. postProcess writeOk now uploadedImages raw = Inr out \<and> numberingInvariant out)"
  using enforceQuestionNumbering_wellFormed [of s] enforce_sameShape_numbered [of s]
    postProcess_numbered [of writeOk now uploadedImages raw]
  by blast

lemma wellFormed_readingDocNumbered: "wellFormed readingDocNumbered"
  by (simp add: wellFormed_def readingDocNumbered_def mkPart_def)

theorem enforceQuestionNumbering_numbers_witness:
  "wellFormed readingDocNumbered \<and>
   map (map number) (map questionsOrEmpty (the (parts readingDocNumbered))) = [[Some 7]] \<and>
   (\<exists>s'. enforceQuestionNumbering readingDocNumbered = Inr s' \<and> numberingInvariant s' \<and>
      map (map number) (map questionsOrEmpty (the (parts s'))) = [[Some 1]])"
proof -
  have w: "wellFormed readingDocNumbered" by (rule wellFormed_readingDocNumbered)
  have i: "map (map number) (map questionsOrEmpty (the (parts readingDocNumbered))) = [[Some 7]]"
    by (simp add: readingDocNumbered_def mkPart_def questionsOrEmpty_def)
  from enforceQuestionNumbering_numbers [of readingDocNumbered] w
  obtain s' where s': "enforceQuestionNumbering readingDocNumbered = Inr s'"
    "numberingInvariant s'" by blast
  have e: "enforceQuestionNumbering readingDocNumbered = Inr s' \<Longrightarrow>
      map (map number) (map questionsOrEmpty (the (parts s'))) = [[Some 1]]"
    by (auto simp: enforceQuestionNumbering_def forEachPart_def readingDocNumbered_def mkPart_def
        questionsOrEmpty_def numberQuestion_def Let_def emptyQuestion_def js_def enumerate_eq_zip)
  show ?thesis
    by (intro conjI exI [of _ s']) (rule w i s' e [OF s'(1)])+
qed

subsection \<open>Totality\<close>

text \<open>
  Claim C7 as stated fails: the stages after stage 2 are written for its output. On the
  document without a parts array stage 3 returns the document when no image was uploaded
  and raises when one was, and stages 4, 5, 6, 7 and 8 raise. On the document whose part
  has no questions array stages 3 and 5 return, and stages 4, 6, 7 and 8 raise.
\<close>

theorem stages_raise_counterexample:
  "injectImageObjects docWithoutParts [] = Inr docWithoutParts \<and>
   injectImageObjects docWithoutParts [mapImage] = Inl TypeError \<and>
   processBase64Images (\<lambda>f. True) (\<lambda>p q. 0) docWithoutParts = Inl TypeError \<and>
   linkMatchingQuestions docWithoutParts = Inl TypeError \<and>
   standardizeQuestionIds docWithoutParts = Inl TypeError \<and>
   enforceQuestionNumbering docWithoutParts = Inl TypeError \<and>
   validateRequiredFields docWithoutParts = Inl TypeError \<and>
   injectImageObjects docWithoutQuestions [mapImage] =
     Inr (docWithoutQuestions\<lparr>parts := Some [mkPart (Some 1) None (Some [])]\<rparr>) \<and>
   processBase64Images (\<lambda>f. True) (\<lambda>p q. 0) docWithoutQuestions = Inl TypeError \<and>
   linkMatchingQuestions docWithoutQuestions = Inr docWithoutQuestions \<and>
   standardizeQuestionIds docWithoutQuestions = Inl TypeError \<and>
   enforceQuestionNumbering docWithoutQuestions = Inl TypeError \<and>
   validateRequiredFields docWithoutQuestions = Inl TypeError"
  by (simp add: docWithoutParts_def docWithoutQuestions_def mapImage_def mkPart_def
      injectImageObjects_def processBase64Images_def linkMatchingQuestions_def linkPart_def
      standardizeQuestionIds_def enforceQuestionNumbering_def validateRequiredFields_def
      partErrors_def forEachPart_def questionsOrEmpty_def enumerate_eq_zip Let_def)

text \<open>
  Claim C7, as the code has it, for documents whose fields have the types of the schema.
  Stage 1 and stage 2 leave a document whose parts array and questions arrays are
  present, whatever was missing. On a document with these arrays each of the stages 3 to
  7 returns, with the arrays still present, and stage 8 returns its report, in which
  \<open>valid\<close> is true exactly when \<open>errors\<close> is empty, and that exactly when no required
  field is missing (\<open>documentComplete\<close>). The pipeline of the endpoints, which runs stage 1
  and stage 2 first, therefore returns on every input, and stage 8 reports on its output.
\<close>

theorem stages_total:
  "wellFormed (mergeStage raw) \<and>
   wellFormed (validateAndFixStructure s) \<and>
   (wellFormed s \<longrightarrow>
      (\<exists>s'. injectImageObjects s uploadedImages = Inr s' \<and> wellFormed s') \<and>
      (\<exists>s'. processBase64Images writeOk now s = Inr s' \<and> wellFormed s') \<and>
      (\<exists>s'. linkMatchingQuestions s = Inr s' \<and> wellFormed s') \<and>
      (\<exists>s'. standardizeQuestionIds s = Inr s' \<and> wellFormed s') \<and>
      (\<exists>s'. enforceQuestionNumbering s = Inr s' \<and> wellFormed s') \<and>
      (\<exists>v. validateRequiredFields s = Inr v \<and> (valid v \<longleftrightarrow> errors v = []) \<and>
           (valid v \<longleftrightarrow> documentComplete s))) \<and>
   (\<exists>out. postProcess writeOk now uploadedImages raw = Inr out \<and> wellFormed out \<and>
      (\<exists>v. validateRequiredFields out = Inr v \<and> (valid v \<longleftrightarrow> errors v = []) \<and>
           (valid v \<longleftrightarrow> documentComplete out)))"
proof -
  from postProcess_total [of writeOk now uploadedImages raw] obtain out
    where o: "postProcess writeOk now uploadedImages raw = Inr out" "wellFormed out" by blast
  from validateRequiredFields_complete [OF o(2)] o
  have 3: "\<exists>out. postProcess writeOk now uploadedImages raw = Inr out \<and> wellFormed out \<and>
      (\<exists>v. validateRequiredFields out = Inr v \<and> (valid v \<longleftrightarrow> errors v = []) \<and>
           (valid v \<longleftrightarrow> documentComplete out))" by blast
  have 2: "wellFormed s \<longrightarrow>
      (\<exists>s'. injectImageObjects s uploadedImages = Inr s' \<and> wellFormed s') \<and>
      (\<exists>s'. processBase64Images writeOk now s = Inr s' \<and> wellFormed s') \<and>
      (\<exists>s'. linkMatchingQuestions s = Inr s' \<and> wellFormed s') \<and>
      (\<exists>s'. standardizeQuestionIds s = Inr s' \<and> wellFormed s') \<and>
      (\<exists>s'. enforceQuestionNumbering s = Inr s' \<and> wellFormed s') \<and>
      (\<exists>v. validateRequiredFields s = Inr v \<and> (valid v \<longleftrightarrow> errors v = []) \<and>
           (valid v \<longleftrightarrow> documentComplete s))"
    using injectImageObjects_wellFormed processBase64Images_wellFormed
      linkMatchingQuestions_wellFormed standardizeQuestionIds_wellFormed
      enforceQuestionNumbering_wellFormed validateRequiredFields_complete
    by (intro impI conjI) blast+
  from mergeStage_wellFormed [of raw] validateAndFixStructure_wellFormed [of s] 2 3
  show ?thesis by blast
qed

theorem stages_total_witness:
  "wellFormed bareDoc \<and>
   injectImageObjects bareDoc [mapImage] = Inr bareDoc \<and>
   linkMatchingQuestions bareDoc = Inr bareDoc \<and>
   (\<exists>s'. processBase64Images (\<lambda>f. True) (\<lambda>p q. 0) bareDoc = Inr s' \<and> wellFormed s') \<and>
   (\<exists>s'. standardizeQuestionIds bareDoc = Inr s' \<and> wellFormed s') \<and>
   (\<exists>s'. enforceQuestionNumbering bareDoc = Inr s' \<and> wellFormed s') \<and>
   \<not> documentComplete bareDoc \<and>
   validateRequiredFields bareDoc = Inr \<lparr>valid = False, errors =
     [js ''Missing test number'', js ''Missing section name'',
      js ''Part 0: Missing part number'', js ''Part 0: Missing instructions'',
      js ''Part 0: Missing questionsRange'',
      js ''Part 0, Question 0: Missing questionId'', js ''Part 0, Question 0: Missing number'',
      js ''Part 0, Question 0: Missing type'', js ''Part 0, Question 0: Missing inputType'',
      js ''Part 0, Question 0: Missing isInteractive'',
      js ''Part 0, Question 0: Missing answer object'']\<rparr> \<and>
   (\<exists>out. postProcess (\<lambda>f. True) (\<lambda>p q. 0) [mapImage] docWithoutParts = Inr out \<and>
      wellFormed out)"
proof -
  have w: "wellFormed bareDoc" by (simp add: wellFormed_def bareDoc_def mkPart_def)
  have i: "injectImageObjects bareDoc [mapImage] = Inr bareDoc"
    by (simp add: injectImageObjects_def forEachPart_def bareDoc_def mkPart_def
        questionsOrEmpty_def emptyQuestion_def enumerate_eq_zip js_def)
  have l: "linkMatchingQuestions bareDoc = Inr bareDoc"
    by (simp add: linkMatchingQuestions_def linkPart_def linkQuestion_def forEachPart_def
        bareDoc_def mkPart_def emptyQuestion_def enumerate_eq_zip js_def)
  have c: "\<not> documentComplete bareDoc"
    by (simp add: documentComplete_def bareDoc_def truthyStr_def)
  have v: "validateRequiredFields bareDoc = Inr \<lparr>valid = False, errors =
     [js ''Missing test number'', js ''Missing section name'',
      js ''Part 0: Missing part number'', js ''Part 0: Missing instructions'',
      js ''Part 0: Missing questionsRange'',
      js ''Part 0, Question 0: Missing questionId'', js ''Part 0, Question 0: Missing number'',
      js ''Part 0, Question 0: Missing type'', js ''Part 0, Question 0: Missing inputType'',
      js ''Part 0, Question 0: Missing isInteractive'',
      js ''Part 0, Question 0: Missing answer object'']\<rparr>"
    by (simp add: validateRequiredFields_def partErrors_def questionErrors_def bareDoc_def
        mkPart_def emptyQuestion_def truthyStr_def truthyNum_def showInt_def showNat.simps
        enumerate_eq_zip Let_def js_def)
  from stages_total [where raw = docWithoutParts and s = bareDoc and uploadedImages = "[mapImage]"
      and writeOk = "\<lambda>f. True" and now = "\<lambda>p q. 0"] w i l c v
  show ?thesis by blast
qed

subsection \<open>Matching linkage\<close>

lemma map_enumerate_snd: "map (\<lambda>(i, p). f p) (enumerate n xs) = map f xs"
  by (induction xs arbitrary: n) auto

lemma linkMatchingQuestions_eq:
  "linkMatchingQuestions s =
     (case parts s of None \<Rightarrow> Inl TypeError
      | Some ps \<Rightarrow> Inr (s\<lparr>parts := Some (map linkPart ps)\<rparr>))"
proof (cases "parts s")
  case None
  then show ?thesis by (simp add: linkMatchingQuestions_def forEachPart_None)
next
  case (Some ps)
  have "forEachPart (\<lambda>partIndex p. Inr (linkPart p)) s =
      Inr (s\<lparr>parts := Some (map (\<lambda>(i, p). linkPart p) (enumerate 0 ps))\<rparr>)"
    by (rule forEachPart_pure [OF Some]) simp
  then show ?thesis by (simp add: linkMatchingQuestions_def Some map_enumerate_snd)
qed

lemma findDivider_first:
  "findDivider qs = Some d \<longleftrightarrow>
     (\<exists>i<length qs. qs ! i = d \<and> type d = Some (js ''divider'') \<and> draggableVariants d \<noteq> None \<and>
        (\<forall>j<i. \<not> (type (qs ! j) = Some (js ''divider'') \<and> draggableVariants (qs ! j) \<noteq> None)))"
  unfolding findDivider_def find_Some_iff by blast

lemma findDivider_None:
  "findDivider qs = None \<longleftrightarrow>
     (\<forall>q\<in>set qs. \<not> (type q = Some (js ''divider'') \<and> draggableVariants q \<noteq> None))"
  unfolding findDivider_def find_None_iff by blast

lemma link_example:
  "map_sum id variantsOf
     (linkMatchingQuestions (docOf [divider (Some [js ''X'', js ''Y'']), matching, matching]))
     = Inr [[Some [js ''X'', js ''Y''], Some [js ''X'', js ''Y''], Some [js ''X'', js ''Y'']]] \<and>
   map_sum id variantsOf (linkMatchingQuestions (docOf [matching, matching])) = Inr [[None, None]]"
  by code_simp

text \<open>
  Claim C9, as the code has it. Stage 5 returns whenever the parts array is present, and
  changes nothing but questions arrays. Within a part, the first divider that carries a
  \<open>draggableVariants\<close> field decides (\<open>findDivider\<close>, lemma \<open>findDivider_first\<close>): when
  its list is not empty, every matching question carries that list afterwards and every
  other question is as it was; when there is no such divider, or its list is empty, every
  question is as it was. (A part with the divider \<open>[X, Y]\<close> and two matching
  questions, and a part of two matching questions without a divider: lemma
  \<open>link_example\<close>.)
\<close>

theorem linkMatchingQuestions_links:
  assumes "parts s = Some ps"
  shows "\<exists>ps'. linkMatchingQuestions s = Inr (s\<lparr>parts := Some ps'\<rparr>) \<and> length ps' = length ps \<and>
     (\<forall>k<length ps.
        (questions (ps ! k) = None \<longrightarrow> ps' ! k = ps ! k) \<and>
        (\<forall>qs. questions (ps ! k) = Some qs \<longrightarrow>
           (\<exists>qs'. ps' ! k = (ps ! k)\<lparr>questions := Some qs'\<rparr> \<and> length qs' = length qs \<and>
             (\<forall>d dv. findDivider qs = Some d \<and> draggableVariants d = Some dv \<and> dv \<noteq> [] \<longrightarrow>
                (\<forall>i<length qs. qs' ! i =
                   (if type (qs ! i) = Some (js ''matching'')
                    then (qs ! i)\<lparr>draggableVariants := Some dv\<rparr> else qs ! i))) \<and>
             (findDivider qs = None \<or> (\<exists>d. findDivider qs = Some d \<and> draggableVariants d = Some [])
                \<longrightarrow> qs' = qs) \<and>
             ((\<forall>q\<in>set qs. type q = Some (js ''divider'') \<longrightarrow>
                  draggableVariants q = None \<or> draggableVariants q = Some [])
                \<longrightarrow> qs' = qs))))"
proof -
  let ?ps' = "map linkPart ps"
  have r: "linkMatchingQuestions s = Inr (s\<lparr>parts := Some ?ps'\<rparr>)"
    by (simp add: linkMatchingQuestions_eq assms)
  have k: "(questions (ps ! k) = None \<longrightarrow> ?ps' ! k = ps ! k) \<and>
        (\<forall>qs. questions (ps ! k) = Some qs \<longrightarrow>
           (\<exists>qs'. ?ps' ! k = (ps ! k)\<lparr>questions := Some qs'\<rparr> \<and> length qs' = length qs \<and>
             (\<forall>d dv. findDivider qs = Some d \<and> draggableVariants d = Some dv \<and> dv \<noteq> [] \<longrightarrow>
                (\<forall>i<length qs. qs' ! i =
                   (if type (qs ! i) = Some (js ''matching'')
                    then (qs ! i)\<lparr>draggableVariants := Some dv\<rparr> else qs ! i))) \<and>
             (findDivider qs = None \<or> (\<exists>d. findDivider qs = Some d \<and> draggableVariants d = Some [])
                \<longrightarrow> qs' = qs) \<and>
             ((\<forall>q\<in>set qs. type q = Some (js ''divider'') \<longrightarrow>
                  draggableVariants q = None \<or> draggableVariants q = Some [])
                \<longrightarrow> qs' = qs)))" if k: "k < length ps" for k
  proof (intro conjI impI allI)
    assume "questions (ps ! k) = None"
    with k show "?ps' ! k = ps ! k" by (simp add: linkPart_def)
  next
    fix qs assume qs: "questions (ps ! k) = Some qs"
    let ?qs' = "map (linkQuestion (partDraggableVariants qs)) qs"
    have 1: "?ps' ! k = (ps ! k)\<lparr>questions := Some ?qs'\<rparr>" using k qs by (simp add: linkPart_def)
    have 2: "length ?qs' = length qs" by simp
    have 3: "\<forall>d dv. findDivider qs = Some d \<and> draggableVariants d = Some dv \<and> dv \<noteq> [] \<longrightarrow>
                (\<forall>i<length qs. ?qs' ! i =
                   (if type (qs ! i) = Some (js ''matching'')
                    then (qs ! i)\<lparr>draggableVariants := Some dv\<rparr> else qs ! i))"
      by (auto simp: partDraggableVariants_def linkQuestion_def)
    have 4: "findDivider qs = None \<or> (\<exists>d. findDivider qs = Some d \<and> draggableVariants d = Some [])
                \<longrightarrow> ?qs' = qs"
      by (auto simp: partDraggableVariants_def linkQuestion_def map_idI)
    have 5: "(\<forall>q\<in>set qs. type q = Some (js ''divider'') \<longrightarrow>
                  draggableVariants q = None \<or> draggableVariants q = Some [])
                \<longrightarrow> ?qs' = qs"
    proof
      assume a: "\<forall>q\<in>set qs. type q = Some (js ''divider'') \<longrightarrow>
                  draggableVariants q = None \<or> draggableVariants q = Some []"
      show "?qs' = qs"
      proof (cases "findDivider qs")
        case None
        with 4 show ?thesis by blast
      next
        case (Some d)
        then obtain i where "i < length qs" "qs ! i = d" "type d = Some (js ''divider'')"
          "draggableVariants d \<noteq> None"
          unfolding findDivider_first by blast
        with a have "draggableVariants d = Some []" by (metis nth_mem)
        with Some 4 show ?thesis by blast
      qed
    qed
    from 1 2 3 4 5 show "\<exists>qs'. ?ps' ! k = (ps ! k)\<lparr>questions := Some qs'\<rparr> \<and> length qs' = length qs \<and>
             (\<forall>d dv. findDivider qs = Some d \<and> draggableVariants d = Some dv \<and> dv \<noteq> [] \<longrightarrow>
                (\<forall>i<length qs. qs' ! i =
                   (if type (qs ! i) = Some (js ''matching'')
                    then (qs ! i)\<lparr>draggableVariants := Some dv\<rparr> else qs ! i))) \<and>
             (findDivider qs = None \<or> (\<exists>d. findDivider qs = Some d \<and> draggableVariants d = Some [])
                \<longrightarrow> qs' = qs) \<and>
             ((\<forall>q\<in>set qs. type q = Some (js ''divider'') \<longrightarrow>
                  draggableVariants q = None \<or> draggableVariants q = Some [])
                \<longrightarrow> qs' = qs)" by blast
  qed
  have "length ?ps' = length ps" by simp
  with r k show ?thesis by blast
qed

theorem linkMatchingQuestions_links_witness:
  "findDivider linkedQuestions = Some (divider (Some [js ''X'', js ''Y''])) \<and>
   (\<exists>ps'. linkMatchingQuestions (docOf linkedQuestions)
             = Inr ((docOf linkedQuestions)\<lparr>parts := Some ps'\<rparr>) \<and>
      (\<exists>qs'. questions (ps' ! 0) = Some qs' \<and>
         draggableVariants (qs' ! 1) = Some [js ''X'', js ''Y''] \<and>
         draggableVariants (qs' ! 2) = Some [js ''X'', js ''Y'']))"
proof -
  let ?p = "mkPart (Some 1) None (Some linkedQuestions)"
  let ?dv = "[js ''X'', js ''Y'']"
  have p: "parts (docOf linkedQuestions) = Some [?p]" by (simp add: docOf_def)
  have q: "questions ([?p] ! 0) = Some linkedQuestions" by (simp add: mkPart_def)
  have f: "findDivider linkedQuestions = Some (divider (Some ?dv))"
    by (simp add: findDivider_def linkedQuestions_def divider_def)
  have d: "draggableVariants (divider (Some ?dv)) = Some ?dv" "?dv \<noteq> []"
    by (simp_all add: divider_def)
  have t: "type (linkedQuestions ! 1) = Some (js ''matching'')"
    "type (linkedQuestions ! 2) = Some (js ''matching'')"
    by (simp_all add: linkedQuestions_def matching_def)
  from linkMatchingQuestions_links [OF p] obtain ps'
    where r: "linkMatchingQuestions (docOf linkedQuestions)
             = Inr ((docOf linkedQuestions)\<lparr>parts := Some ps'\<rparr>)"
      and k: "\<forall>k<length [?p].
        (questions ([?p] ! k) = None \<longrightarrow> ps' ! k = [?p] ! k) \<and>
        (\<forall>qs. questions ([?p] ! k) = Some qs \<longrightarrow>
           (\<exists>qs'. ps' ! k = ([?p] ! k)\<lparr>questions := Some qs'\<rparr> \<and> length qs' = length qs \<and>
             (\<forall>d dv. findDivider qs = Some d \<and> draggableVariants d = Some dv \<and> dv \<noteq> [] \<longrightarrow>
                (\<forall>i<length qs. qs' ! i =
                   (if type (qs ! i) = Some (js ''matching'')
                    then (qs ! i)\<lparr>draggableVariants := Some dv\<rparr> else qs ! i))) \<and>
             (findDivider qs = None \<or> (\<exists>d. findDivider qs = Some d \<and> draggableVariants d = Some [])
                \<longrightarrow> qs' = qs) \<and>
             ((\<forall>q\<in>set qs. type q = Some (js ''divider'') \<longrightarrow>
                  draggableVariants q = None \<or> draggableVariants q = Some [])
                \<longrightarrow> qs' = qs)))"
    by blast
  have "0 < length [?p]" by simp
  from k [rule_format, OF this, THEN conjunct2, rule_format, OF q] obtain qs'
    where a: "ps' ! 0 = ([?p] ! 0)\<lparr>questions := Some qs'\<rparr>"
      and b: "\<forall>d dv. findDivider linkedQuestions = Some d \<and> draggableVariants d = Some dv \<and> dv \<noteq> [] \<longrightarrow>
                (\<forall>i<length linkedQuestions. qs' ! i =
                   (if type (linkedQuestions ! i) = Some (js ''matching'')
                    then (linkedQuestions ! i)\<lparr>draggableVariants := Some dv\<rparr> else linkedQuestions ! i))"
    by blast
  from b f d have c: "\<forall>i<length linkedQuestions. qs' ! i =
                   (if type (linkedQuestions ! i) = Some (js ''matching'')
                    then (linkedQuestions ! i)\<lparr>draggableVariants := Some ?dv\<rparr> else linkedQuestions ! i)"
    by blast
  have l: "1 < length linkedQuestions" "2 < length linkedQuestions" by (simp_all add: linkedQuestions_def)
  from c l t have "qs' ! 1 = (linkedQuestions ! 1)\<lparr>draggableVariants := Some ?dv\<rparr>"
    "qs' ! 2 = (linkedQuestions ! 2)\<lparr>draggableVariants := Some ?dv\<rparr>" by simp_all
  then have e: "draggableVariants (qs' ! 1) = Some ?dv" "draggableVariants (qs' ! 2) = Some ?dv"
    by simp_all
  from a have g: "questions (ps' ! 0) = Some qs'" by simp
  show ?thesis
    by (intro conjI exI [of _ ps'] exI [of _ qs']) (rule f r g e)+
qed

text \<open>
  Claim C9 as stated fails where a part has more than one divider with the field: a
  first divider with an empty list leaves the matching question without variants although
  a later divider has the list \<open>[X, Y]\<close>, and of two dividers with the lists \<open>[X]\<close> and
  \<open>[Y]\<close> the matching question gets \<open>[X]\<close>, not \<open>[Y]\<close>.
\<close>

theorem linkMatchingQuestions_counterexample:
  "map_sum id variantsOf
     (linkMatchingQuestions (docOf [divider (Some []), divider (Some [js ''X'', js ''Y'']), matching]))
     = Inr [[Some [], Some [js ''X'', js ''Y''], None]] \<and>
   map_sum id variantsOf
     (linkMatchingQuestions (docOf [divider (Some [js ''X'']), divider (Some [js ''Y'']), matching]))
     = Inr [[Some [js ''X''], Some [js ''Y''], Some [js ''X'']]]"
  by code_simp

section \<open>Properties of the OCR gateway\<close>

lemma tryService_unhealthy:
  assumes "\<forall>n. \<not> healthAt w n"
  shows "tryService w (js ''doctr'') msg tr = (Inl msg, tr @ [HealthCheck])"
  using assms by (simp add: tryService_def isDocTRHealthy_def)

lemma unhealthyEvents_Suc:
  "unhealthyEvents (Suc k) = HealthCheck # (if k = 0 then [] else Delay 1000 # unhealthyEvents k)"
  by (cases k) auto

lemma primaryLoop_unhealthy:
  assumes p: "primaryService cfg = js ''doctr''" and h: "\<forall>n. \<not> healthAt w n"
  shows "attempts + int k = maxRetries cfg \<Longrightarrow>
     primaryLoop cfg w attempts lastError tr =
       (Inr (if k = 0 then lastError else Some (js ''docTR service is unhealthy'')),
        tr @ unhealthyEvents k)"
proof (induction k arbitrary: attempts lastError tr)
  case 0
  then show ?case by (simp add: primaryLoop.simps)
next
  case (Suc k)
  have lt: "attempts < maxRetries cfg" using Suc.prems by simp
  have nx: "(attempts + 1) + int k = maxRetries cfg" using Suc.prems by simp
  have d: "(attempts + 1 < maxRetries cfg) = (k \<noteq> 0)" using Suc.prems by auto
  show ?case
    apply (subst primaryLoop.simps)
    apply (simp only: lt if_True p tryService_unhealthy [OF h] prod.case sum.case)
    apply (subst Suc.IH [OF nx])
    apply (simp add: d unhealthyEvents_Suc)
    done
qed

lemma set_unhealthyEvents: "set (unhealthyEvents k) \<subseteq> {HealthCheck, Delay 1000}"
  by (induction k rule: unhealthyEvents.induct) auto

lemma count_unhealthyEvents:
  "countEvent HealthCheck (unhealthyEvents k) = k"
  "countEvent (Delay 1000) (unhealthyEvents k) = k - 1"
  by (induction k rule: unhealthyEvents.induct) (auto simp: countEvent_def)

lemma countEvent_append: "countEvent e (xs @ ys) = countEvent e xs + countEvent e ys"
  by (simp add: countEvent_def)

lemma countEvent_0: "e \<notin> set tr \<Longrightarrow> countEvent e tr = 0"
  by (induction tr) (auto simp: countEvent_def)

text \<open>
  Claim C4, as the code has it. The primary is docTR, the fallback is not, the service
  allows \<open>m + 1\<close> attempts, and every health check reports unhealthy. Then the gateway
  spends all \<open>m + 1\<close> attempts on health checks, with the \<open>m\<close> delays of one second between
  them, never calls the docTR extraction, and calls the fallback once; the result is the
  fallback's, tagged \<open>Tesseract\<close>, or the error that names both services.
\<close>

theorem extractText_unhealthy_primary:
  assumes "primaryService cfg = js ''doctr''" and "fallbackService cfg \<noteq> js ''doctr''"
    and "maxRetries cfg = int (Suc m)" and "\<forall>n. \<not> healthAt w n"
  shows "snd (extractText cfg w) = unhealthyEvents (Suc m) @ [TesseractExtract] \<and>
         countEvent HealthCheck (snd (extractText cfg w)) = Suc m \<and>
         countEvent (Delay 1000) (snd (extractText cfg w)) = m \<and>
         DocTRExtract \<notin> set (snd (extractText cfg w)) \<and>
         fst (extractText cfg w) =
           (case tesseractAt w 0 of
              Inr r \<Rightarrow> Inr \<lparr>payload = r, service = js ''Tesseract''\<rparr>
            | Inl fallbackError \<Rightarrow>
                Inl (Err (js ''Both primary (doctr) and fallback ('' @ fallbackService cfg
                          @ js '') OCR services failed. Last error: docTR service is unhealthy'')))"
proof -
  have l: "primaryLoop cfg w 0 None [] =
      (Inr (Some (js ''docTR service is unhealthy'')), unhealthyEvents (Suc m))"
    using primaryLoop_unhealthy [OF assms(1,4), of 0 "Suc m" None "[]"] assms(3) by simp
  have nt: "TesseractExtract \<notin> set (unhealthyEvents (Suc m))"
    using set_unhealthyEvents [of "Suc m"] by auto
  have nd: "DocTRExtract \<notin> set (unhealthyEvents (Suc m))"
    using set_unhealthyEvents [of "Suc m"] by auto
  have f: "tryService w (fallbackService cfg) (js ''docTR fallback service is also unhealthy'')
             (unhealthyEvents (Suc m)) =
           ((case tesseractAt w 0 of Inl msg \<Rightarrow> Inl msg
             | Inr r \<Rightarrow> Inr \<lparr>payload = r, service = js ''Tesseract''\<rparr>),
            unhealthyEvents (Suc m) @ [TesseractExtract])"
    using assms(2) by (simp add: tryService_def extractTextWithTesseract_def countEvent_0 [OF nt])
  have e: "extractText cfg w =
      ((case tesseractAt w 0 of
              Inr r \<Rightarrow> Inr \<lparr>payload = r, service = js ''Tesseract''\<rparr>
            | Inl fallbackError \<Rightarrow>
                Inl (Err (js ''Both primary (doctr) and fallback ('' @ fallbackService cfg
                          @ js '') OCR services failed. Last error: docTR service is unhealthy''))),
       unhealthyEvents (Suc m) @ [TesseractExtract])"
  proof (cases "tesseractAt w 0")
    case (Inl msg)
    show ?thesis
      unfolding extractText_def l prod.case sum.case
      using assms(1,2) by (simp add: f Inl) (simp add: js_def)
  next
    case (Inr r)
    show ?thesis
      unfolding extractText_def l prod.case sum.case
      using assms(1,2) by (simp add: f Inr)
  qed
  have c1: "countEvent HealthCheck (unhealthyEvents (Suc m) @ [TesseractExtract]) = Suc m"
    unfolding countEvent_append count_unhealthyEvents by (simp add: countEvent_def)
  have c2: "countEvent (Delay 1000) (unhealthyEvents (Suc m) @ [TesseractExtract]) = m"
    unfolding countEvent_append count_unhealthyEvents by (simp add: countEvent_def)
  have c3: "DocTRExtract \<notin> set (unhealthyEvents (Suc m) @ [TesseractExtract])"
    using nd by simp
  show ?thesis
    unfolding e fst_conv snd_conv using c1 c2 c3 by blast
qed

theorem extractText_unhealthy_primary_witness:
  "primaryService appService = js ''doctr'' \<and> fallbackService appService = js ''tesseract'' \<and>
   maxRetries appService = 2 \<and>
   countEvent HealthCheck (snd (extractText appService downWorld)) = 2 \<and>
   countEvent (Delay 1000) (snd (extractText appService downWorld)) = 1 \<and>
   DocTRExtract \<notin> set (snd (extractText appService downWorld))"
proof -
  have a: "primaryService appService = js ''doctr''" "fallbackService appService = js ''tesseract''"
    "maxRetries appService = 2"
    by (simp_all add: appService_def newOCRService_def orStr_def truthyStr_def truthyNum_def
        tmplStr_def js_def)
  have b: "fallbackService appService \<noteq> js ''doctr''" unfolding a by (simp add: js_def)
  have c: "maxRetries appService = int (Suc 1)" unfolding a by simp
  have d: "\<forall>n. \<not> healthAt downWorld n" by (simp add: downWorld_def)
  from extractText_unhealthy_primary [OF a(1) b c d] a show ?thesis
    by (simp add: countEvent_def)
qed

text \<open>
  Claim C4 as stated fails: with the configuration of the application (two attempts) and
  docTR down, the gateway checks the health twice and waits a second in between before it
  falls back.
\<close>

theorem extractText_unhealthy_retries_counterexample:
  "snd (extractText appService downWorld) = [HealthCheck, Delay 1000, HealthCheck, TesseractExtract] \<and>
   fst (extractText appService downWorld) = Inr \<lparr>payload = js ''page text'', service = js ''Tesseract''\<rparr>"
  by code_simp

section \<open>Properties of parseJsonSafely\<close>

text \<open>The definitions that evaluate the cleaners on a given text.\<close>

lemmas eval_defs = js_def wordNumber_def twoWords_def oneOf_def runOf_def spacedOneOf_def
  numberDot_def charDot_def hyphenBreak_def hyphenJoin_def lineFeedBeforeLower_def pairOf_def
  sentenceStart_def trim_def lowerAscii_def isUpper_def isLower_def isAlpha_def isSpace_def
  isDigit_def isDash_def isWordChar_def isLineTerminator_def isControl_def collapseSpaces_def
  wordSpaces_def keyColon_def unquotedKey_def quoteLeadingKey_def trailingComma_def
  escapedQuote_def lineBreak_def quotedLine_def cleanJsonString_def extractJson_def Let_def

lemma extractJson_span:
  assumes "extractJson s = Some e"
  shows "\<exists>pre post. s = pre @ e @ post \<and> 123 \<notin> set pre \<and> 125 \<notin> set post \<and>
           hd e = 123 \<and> last e = 125 \<and> e \<noteq> []"
proof -
  let ?pre = "takeWhile (\<lambda>c. c \<noteq> 123) s"
  let ?fromBrace = "dropWhile (\<lambda>c. c \<noteq> 123) s"
  let ?post = "rev (takeWhile (\<lambda>c. c \<noteq> 125) (rev ?fromBrace))"
  from assms have in125: "125 \<in> set ?fromBrace"
    and e: "e = rev (dropWhile (\<lambda>c. c \<noteq> 125) (rev ?fromBrace))"
    by (auto simp: extractJson_def Let_def split: if_splits)
  have "?fromBrace = e @ ?post"
    unfolding e by (metis rev_append rev_rev_ident takeWhile_dropWhile_id)
  then have s: "s = ?pre @ e @ ?post" by (metis takeWhile_dropWhile_id)
  have p1: "123 \<notin> set ?pre" by (auto dest: set_takeWhileD)
  have p2: "125 \<notin> set ?post" by (auto dest: set_takeWhileD)
  have ne: "?fromBrace \<noteq> []"
  proof
    assume "?fromBrace = []"
    with in125 have "125 \<in> set ([] :: nat list)" by (simp only:)
    then show False by simp
  qed
  from hd_dropWhile [OF ne] have hf: "hd ?fromBrace = 123" by simp
  from in125 have "125 \<in> set (rev ?fromBrace)" by simp
  then have ne2: "dropWhile (\<lambda>c. c \<noteq> 125) (rev ?fromBrace) \<noteq> []"
    by (simp add: dropWhile_eq_Nil_conv) 
  from hd_dropWhile [OF ne2] have "hd (dropWhile (\<lambda>c. c \<noteq> 125) (rev ?fromBrace)) = 125"
    by simp
  with ne2 have le: "last e = 125" unfolding e by (simp add: last_rev)
  from ne2 have ene: "e \<noteq> []" unfolding e by simp
  have "hd e = hd ?fromBrace" using \<open>?fromBrace = e @ ?post\<close> ene by (metis hd_append2)
  with hf have he: "hd e = 123" by simp
  from s p1 p2 he le ene show ?thesis by blast
qed

lemma truncatedResponse_excerpt:
  "\<exists>ex. length ex \<le> 200 \<and> ex = take 200 raw \<and>
     truncatedResponse raw = ex @ (if length raw > 200 then js ''...'' else [])"
  by (auto simp: truncatedResponse_def)


lemma extractJson_of_span:
  assumes "123 \<notin> set pre" "125 \<notin> set post" "e \<noteq> []" "hd e = 123" "last e = 125"
  shows "extractJson (pre @ e @ post) = Some e"
proof -
  from assms(3,4) obtain r where e: "e = 123 # r" by (cases e) auto
  have d1: "dropWhile (\<lambda>c. c \<noteq> 123) (pre @ e @ post) = e @ post"
    using assms(1) unfolding e by (auto simp: dropWhile_append3)
  have in125: "125 \<in> set (e @ post)" using assms(3,5) last_in_set by fastforce
  from assms(3,5) obtain r' where re: "rev e = 125 # r'" by (cases e rule: rev_cases) auto
  have d2: "dropWhile (\<lambda>c. c \<noteq> 125) (rev (e @ post)) = rev e"
    using assms(2) unfolding rev_append re by (auto simp: dropWhile_append3)
  show ?thesis
    unfolding extractJson_def Let_def d1 using in125 by (simp only: if_True d2 rev_rev_ident)
qed

lemma extractJson_iff:
  "extractJson s = Some e \<longleftrightarrow>
     (\<exists>pre post. s = pre @ e @ post \<and> 123 \<notin> set pre \<and> 125 \<notin> set post \<and>
           hd e = 123 \<and> last e = 125 \<and> e \<noteq> [])"
  using extractJson_span extractJson_of_span by blast

lemma cleanJsonString_nonempty: "s \<noteq> [] \<Longrightarrow> \<exists>cleaned. cleanJsonString s = Inr cleaned"
  by (simp add: cleanJsonString_def)

text \<open>
  Claim C3, as the code has it. An empty text raises at once, with its own message. For
  any other text the four attempts are made in order and the first that parses is
  returned: the text itself; the text cleaned by \<open>cleanJsonString\<close>; the text repaired by
  \<open>jsonrepair\<close>, when the package is installed; and the span from the first opening brace
  to the last closing brace behind it, cleaned. The call raises exactly when all four
  fail, and the message then ends with the first 200 code units of the text (followed by
  three dots when the text is longer).
\<close>

theorem parseJsonSafely_attempts:
  fixes parse :: "jsstring \<Rightarrow> 'v option" and jsonrepair raw ctx
  defines "result \<equiv> parseJsonSafely parse jsonrepair raw ctx"
  defines "a \<equiv> attemptDirect parse raw"
  defines "b \<equiv> attemptCleaned parse raw"
  defines "c \<equiv> attemptRepaired parse jsonrepair raw"
  defines "d \<equiv> attemptExtracted parse raw"
  shows
   "(raw = [] \<longrightarrow> result = Inl (js ''Empty '' @ ctx @ js '' response received'')) \<and>
    (raw \<noteq> [] \<longrightarrow>
       (\<forall>v. a = Some v \<longrightarrow> result = Inr v) \<and>
       (\<forall>v. a = None \<and> b = Some v \<longrightarrow> result = Inr v) \<and>
       (\<forall>v. a = None \<and> b = None \<and> c = Some v \<longrightarrow> result = Inr v) \<and>
       (\<forall>v. a = None \<and> b = None \<and> c = None \<and> d = Some v \<longrightarrow> result = Inr v) \<and>
       (a = None \<and> b = None \<and> c = None \<and> d = None \<longrightarrow>
          result = Inl (js ''Failed to parse '' @ ctx
                        @ js '' JSON after all repair attempts. Raw response: ''
                        @ take 200 raw @ (if length raw > 200 then js ''...'' else []))) \<and>
       ((\<exists>e. result = Inl e) \<longrightarrow> a = None \<and> b = None \<and> c = None \<and> d = None)) \<and>
    length (take 200 raw) \<le> 200 \<and>
    a = parse raw \<and>
    (raw \<noteq> [] \<longrightarrow> (\<exists>cleaned. cleanJsonString raw = Inr cleaned \<and> b = parse cleaned)) \<and>
    (jsonrepair = None \<longrightarrow> c = None) \<and>
    (\<forall>repair. jsonrepair = Some repair \<longrightarrow>
       c = (case repair raw of None \<Rightarrow> None | Some repaired \<Rightarrow> parse repaired)) \<and>
    (\<forall>v. d = Some v \<longleftrightarrow>
       (\<exists>pre e post cleaned. raw = pre @ e @ post \<and> 123 \<notin> set pre \<and> 125 \<notin> set post \<and>
          e \<noteq> [] \<and> hd e = 123 \<and> last e = 125 \<and>
          cleanJsonString e = Inr cleaned \<and> parse cleaned = Some v))"
proof -
  have 1: "raw = [] \<longrightarrow> result = Inl (js ''Empty '' @ ctx @ js '' response received'')"
    by (simp add: result_def parseJsonSafely_def)
  have tr: "truncatedResponse raw = take 200 raw @ (if length raw > 200 then js ''...'' else [])"
    by (simp add: truncatedResponse_def)
  have 2: "raw \<noteq> [] \<longrightarrow>
       (\<forall>v. a = Some v \<longrightarrow> result = Inr v) \<and>
       (\<forall>v. a = None \<and> b = Some v \<longrightarrow> result = Inr v) \<and>
       (\<forall>v. a = None \<and> b = None \<and> c = Some v \<longrightarrow> result = Inr v) \<and>
       (\<forall>v. a = None \<and> b = None \<and> c = None \<and> d = Some v \<longrightarrow> result = Inr v) \<and>
       (a = None \<and> b = None \<and> c = None \<and> d = None \<longrightarrow>
          result = Inl (js ''Failed to parse '' @ ctx
                        @ js '' JSON after all repair attempts. Raw response: ''
                        @ take 200 raw @ (if length raw > 200 then js ''...'' else []))) \<and>
       ((\<exists>e. result = Inl e) \<longrightarrow> a = None \<and> b = None \<and> c = None \<and> d = None)"
    unfolding result_def parseJsonSafely_def a_def [symmetric] b_def [symmetric]
      c_def [symmetric] d_def [symmetric] tr
    by (cases a; cases b; cases c; cases d) simp_all
  have 3: "length (take 200 raw) \<le> 200" by simp
  have 4: "a = parse raw" by (simp add: a_def attemptDirect_def)
  have 5: "raw \<noteq> [] \<longrightarrow> (\<exists>cleaned. cleanJsonString raw = Inr cleaned \<and> b = parse cleaned)"
    using cleanJsonString_nonempty [of raw] by (auto simp: b_def attemptCleaned_def)
  have 6: "jsonrepair = None \<longrightarrow> c = None" by (simp add: c_def attemptRepaired_def)
  have 7: "\<forall>repair. jsonrepair = Some repair \<longrightarrow>
       c = (case repair raw of None \<Rightarrow> None | Some repaired \<Rightarrow> parse repaired)"
    by (simp add: c_def attemptRepaired_def)
  have 8: "d = Some v \<longleftrightarrow>
       (\<exists>pre e post cleaned. raw = pre @ e @ post \<and> 123 \<notin> set pre \<and> 125 \<notin> set post \<and>
          e \<noteq> [] \<and> hd e = 123 \<and> last e = 125 \<and>
          cleanJsonString e = Inr cleaned \<and> parse cleaned = Some v)" for v
  proof
    assume "d = Some v"
    then obtain e cleaned where e: "extractJson raw = Some e" "cleanJsonString e = Inr cleaned"
      "parse cleaned = Some v"
      by (auto simp: d_def attemptExtracted_def split: option.splits sum.splits)
    from extractJson_span [OF e(1)] e(2,3)
    show "\<exists>pre e post cleaned. raw = pre @ e @ post \<and> 123 \<notin> set pre \<and> 125 \<notin> set post \<and>
          e \<noteq> [] \<and> hd e = 123 \<and> last e = 125 \<and>
          cleanJsonString e = Inr cleaned \<and> parse cleaned = Some v" by blast
  next
    assume "\<exists>pre e post cleaned. raw = pre @ e @ post \<and> 123 \<notin> set pre \<and> 125 \<notin> set post \<and>
          e \<noteq> [] \<and> hd e = 123 \<and> last e = 125 \<and>
          cleanJsonString e = Inr cleaned \<and> parse cleaned = Some v"
    then obtain pre e post cleaned where r: "raw = pre @ e @ post" "123 \<notin> set pre"
      "125 \<notin> set post" "e \<noteq> []" "hd e = 123" "last e = 125"
      and cl: "cleanJsonString e = Inr cleaned" "parse cleaned = Some v" by blast
    from extractJson_of_span [OF r(2-6)] r(1) have "extractJson raw = Some e" by simp
    with cl show "d = Some v" by (simp add: d_def attemptExtracted_def)
  qed
  from 1 2 3 4 5 6 7 8 show ?thesis by blast
qed

theorem parseJsonSafely_attempts_witness:
  "parseJsonSafely parseEmptyObject None (js ''so: {} ok'') (js ''JSON'') = Inr () \<and>
   parseJsonSafely parseEmptyObject None (js ''no json'') (js ''JSON'')
     = Inl (js ''Failed to parse JSON JSON after all repair attempts. Raw response: no json'')"
proof -
  have raw: "js ''so: {} ok'' \<noteq> []" "js ''no json'' \<noteq> []" by (simp_all add: js_def)
  have a1: "attemptDirect parseEmptyObject (js ''so: {} ok'') = None"
    and b1: "attemptCleaned parseEmptyObject (js ''so: {} ok'') = None"
    and c1: "attemptRepaired parseEmptyObject None (js ''so: {} ok'') = None"
    and d1: "attemptExtracted parseEmptyObject (js ''so: {} ok'') = Some ()"
    by (simp_all add: attemptDirect_def attemptCleaned_def attemptRepaired_def attemptExtracted_def
        parseEmptyObject_def eval_defs)
  have a2: "attemptDirect parseEmptyObject (js ''no json'') = None"
    and b2: "attemptCleaned parseEmptyObject (js ''no json'') = None"
    and c2: "attemptRepaired parseEmptyObject None (js ''no json'') = None"
    and d2: "attemptExtracted parseEmptyObject (js ''no json'') = None"
    by (simp_all add: attemptDirect_def attemptCleaned_def attemptRepaired_def attemptExtracted_def
        parseEmptyObject_def eval_defs)
  have t: "take 200 (js ''no json'') @ (if length (js ''no json'') > 200 then js ''...'' else [])
      = js ''no json''" by (simp add: js_def)
  from parseJsonSafely_attempts [where parse = parseEmptyObject and jsonrepair = None
      and raw = "js ''so: {} ok''" and ctx = "js ''JSON''"]
    raw(1) a1 b1 c1 d1
  have r1: "parseJsonSafely parseEmptyObject None (js ''so: {} ok'') (js ''JSON'') = Inr ()"
    by blast
  from parseJsonSafely_attempts [where parse = parseEmptyObject and jsonrepair = None
      and raw = "js ''no json''" and ctx = "js ''JSON''"]
    raw(2) a2 b2 c2 d2
  have "parseJsonSafely parseEmptyObject None (js ''no json'') (js ''JSON'')
     = Inl (js ''Failed to parse '' @ js ''JSON''
                        @ js '' JSON after all repair attempts. Raw response: ''
                        @ take 200 (js ''no json'') @ (if length (js ''no json'') > 200 then js ''...'' else []))"
    by blast
  then have r2: "parseJsonSafely parseEmptyObject None (js ''no json'') (js ''JSON'')
     = Inl (js ''Failed to parse JSON JSON after all repair attempts. Raw response: no json'')"
    unfolding t by (simp add: js_def)
  from r1 r2 show ?thesis ..
qed

text \<open>
  Claim C3 as stated fails at the fourth attempt: the span taken from a text is not its
  first balanced span. From \<open>{} and {}\<close> the first balanced span is \<open>{}\<close>, which parses;
  the code takes the whole text, which does not, and raises.
\<close>

theorem parseJsonSafely_span_counterexample:
  "extractJson (js ''{} and {}'') = Some (js ''{} and {}'') \<and>
   firstBalancedSpan (js ''{} and {}'') = Some (js ''{}'') \<and>
   cleanJsonString (js ''{}'') = Inr (js ''{}'') \<and>
   parseEmptyObject (js ''{}'') = Some () \<and>
   parseJsonSafely parseEmptyObject None (js ''{} and {}'') (js ''JSON'')
     = Inl (js ''Failed to parse JSON JSON after all repair attempts. Raw response: {} and {}'')"
  by (simp add: parseJsonSafely_def attemptDirect_def attemptCleaned_def attemptRepaired_def
      attemptExtracted_def truncatedResponse_def parseEmptyObject_def eval_defs)

section \<open>Properties of cleanOCRText\<close>




















end
